theory Spec2Isabelle
  imports Complex_Main "HOL-Library.Log_Nat"
begin

section \<open>Data model\<close>

text \<open>
  The relational store of the booking backend, as the route handlers of
  \<^verbatim>\<open>backend/routes/bookings.js\<close> and of the admin router read and write it.
  Times are milliseconds since the epoch (what \<^verbatim>\<open>new Date(s)\<close> yields, and the order
  in which the store compares timestamps), within the range of \<^verbatim>\<open>Date\<close>; an amount of
  money is the decimal number that the store holds, an exact rational.  A status is the
  string the store holds.
\<close>

record station =
  sid :: int
  total_slots :: int
  pricing_per_hour :: rat
  station_status :: string

record booking =
  bid :: nat
  station_id :: int
  user_id :: string
  slot_number :: int
  start_time :: int
  end_time :: int
  total_cost :: rat
  status :: string
  updated_at :: int

record power_log =
  pl_station_id :: int
  pl_booking_id :: nat
  power_kw :: rat

text \<open>
  \<open>users\<close> is the table \<^verbatim>\<open>users(clerk_id, role)\<close> read by \<^verbatim>\<open>requireAdmin\<close>;
  \<open>next_bid\<close> is the sequence behind the serial key of \<^verbatim>\<open>bookings\<close>.  Rows are kept
  in insertion order.
\<close>

record store =
  stations :: "station list"
  bookings :: "booking list"
  power_logs :: "power_log list"
  users :: "(string \<times> string) list"
  next_bid :: nat

text \<open>
  The value of \<^verbatim>\<open>req.body.slot_number\<close>: absent, \<^verbatim>\<open>null\<close>, an integral number, or
  a string.
\<close>

datatype jsval = JUndefined | JNull | JNum int | JStr string

text \<open>JavaScript truthiness, the test behind \<^verbatim>\<open>!assignedSlotNumber\<close>.\<close>

fun truthy :: "jsval \<Rightarrow> bool" where
  "truthy JUndefined = False"
| "truthy JNull = False"
| "truthy (JNum n) = (n \<noteq> 0)"
| "truthy (JStr s) = (s \<noteq> [])"

text \<open>
  The body of \<^verbatim>\<open>POST /bookings\<close>.  \<open>None\<close> is a field that is missing (or an empty
  string); a time that is present is the instant its ISO-8601 text denotes.
\<close>

record request =
  req_station_id :: "int option"
  req_start_time :: "int option"
  req_end_time :: "int option"
  req_slot_number :: jsval

text \<open>\<^verbatim>\<open>!station_id\<close>: a missing identifier and the number 0 are both falsy.\<close>

definition missing_id :: "int option \<Rightarrow> bool" where
  "missing_id v = (case v of None \<Rightarrow> True | Some n \<Rightarrow> n = 0)"

text \<open>The statements a handler sends to the store, in the order of the source.\<close>

datatype stmt =
  Begin | SelectStation | CountConflicts | SelectUsedSlots | InsertBooking | Commit
  | UpdateBooking | InsertPowerLog | SelectRole

text \<open>
  What the handlers take from their surroundings: the clock behind \<^verbatim>\<open>NOW()\<close>, which
  statements the store rejects with an exception (an infrastructure fault), whether
  \<^verbatim>\<open>io.to(...).emit(...)\<close> throws, and the store's conversion of a text parameter
  to its integer column type.
\<close>

record env =
  now :: int
  db_throws :: "stmt \<Rightarrow> bool"
  emit_throws :: bool
  int_of_text :: "string \<Rightarrow> int option"

text \<open>\<^verbatim>\<open>res.status(code).json(...)\<close>: a row on success, \<^verbatim>\<open>{error: msg}\<close> otherwise.\<close>

datatype response = Success nat booking | Failure nat string

section \<open>POST /bookings\<close>

text \<open>SQL \<^verbatim>\<open>x BETWEEN lo AND hi\<close>: both bounds included.\<close>

definition between :: "int \<Rightarrow> int \<Rightarrow> int \<Rightarrow> bool" where
  "between x lo hi = (lo \<le> x \<and> x \<le> hi)"

text \<open>\<^verbatim>\<open>status IN ('active', 'pending')\<close>\<close>

definition live :: "booking \<Rightarrow> bool" where
  "live b = (status b = ''active'' \<or> status b = ''pending'')"

text \<open>
  The time condition of the conflict query (lines 69 to 73), for the requested window
  \<open>s\<close>, \<open>e\<close> against the stored window \<open>bs\<close>, \<open>be\<close>.
\<close>

definition conflicts :: "int \<Rightarrow> int \<Rightarrow> int \<Rightarrow> int \<Rightarrow> bool" where
  "conflicts s e bs be = (between s bs be \<or> between e bs be \<or> between bs s e)"

text \<open>The \<^verbatim>\<open>WHERE\<close> clause of the conflict query, and its \<^verbatim>\<open>COUNT(*)\<close>.\<close>

definition conflictRow :: "int \<Rightarrow> int \<Rightarrow> int \<Rightarrow> booking \<Rightarrow> bool" where
  "conflictRow st s e b =
     (station_id b = st \<and> live b \<and> conflicts s e (start_time b) (end_time b))"

definition conflictCount :: "booking list \<Rightarrow> int \<Rightarrow> int \<Rightarrow> int \<Rightarrow> int" where
  "conflictCount bs st s e = int (length (filter (conflictRow st s e) bs))"

text \<open>
  The query of lines 84 to 90: its time condition has the first two alternatives of the
  conflict query only.
\<close>

definition usedRow :: "int \<Rightarrow> int \<Rightarrow> int \<Rightarrow> booking \<Rightarrow> bool" where
  "usedRow st s e b =
     (station_id b = st \<and> live b \<and>
      (between s (start_time b) (end_time b) \<or> between e (start_time b) (end_time b)))"

definition usedSlots :: "booking list \<Rightarrow> int \<Rightarrow> int \<Rightarrow> int \<Rightarrow> int list" where
  "usedSlots bs st s e = remdups (map slot_number (filter (usedRow st s e) bs))"

text \<open>
  The loop of lines 94 to 99, entered at \<open>i\<close>: the first \<open>i \<le> tot\<close> that
  \<^verbatim>\<open>usedSlots\<close> does not include, or nothing when the loop runs out.
\<close>

function findSlot :: "int list \<Rightarrow> int \<Rightarrow> int \<Rightarrow> int option" where
  "findSlot used tot i =
     (if i \<le> tot
      then (if i \<notin> set used then Some i else findSlot used tot (i + 1))
      else None)"
  by pat_completeness auto
termination
  by (relation "measure (\<lambda>(used, tot, i). nat (tot + 1 - i))") auto

declare findSlot.simps [simp del]

text \<open>
  Lines 82 to 100: \<^verbatim>\<open>assignedSlotNumber\<close> after the block.  A truthy request value is
  kept as it is; otherwise the loop overwrites it when it finds a slot.  \<open>None\<close> is
  the exception of a rejected \<^verbatim>\<open>SELECT DISTINCT\<close>.
\<close>

definition assignSlot :: "env \<Rightarrow> booking list \<Rightarrow> int \<Rightarrow> int \<Rightarrow> int \<Rightarrow> int \<Rightarrow> jsval \<Rightarrow> jsval option" where
  "assignSlot ev bs st s e tot requested =
     (if truthy requested then Some requested
      else if db_throws ev SelectUsedSlots then None
      else (case findSlot (usedSlots bs st s e) tot 1 of
              Some i \<Rightarrow> Some (JNum i)
            | None \<Rightarrow> Some requested))"

text \<open>
  JavaScript numbers are IEEE 754 binary64 values.  A finite one is a rational, and an
  arithmetic operation yields the exact result rounded to the nearest representable
  value, to the one with an even significand when two are equally near.  \<open>pow2 k\<close>
  is the power of two with exponent \<open>k\<close>, and \<open>binade x\<close> the exponent of the
  power of two at or next below \<open>\<bar>x\<bar>\<close>, for \<open>x \<noteq> 0\<close>.
\<close>

definition pow2 :: "int \<Rightarrow> rat" where
  "pow2 k = (if 0 \<le> k then 2 ^ nat k else 1 / 2 ^ nat (- k))"

definition binade :: "rat \<Rightarrow> int" where
  "binade x =
     (let pq = quotient_of \<bar>x\<bar>; d = bitlen (fst pq) - bitlen (snd pq)
      in if pow2 d \<le> \<bar>x\<bar> then d else d - 1)"

text \<open>The nearest integer, the even one of two equally near.\<close>

definition roundEven :: "rat \<Rightarrow> int" where
  "roundEven y =
     (let f = \<lfloor>y\<rfloor>; r = y - of_int f
      in if r < 1 / 2 then f
         else if 1 / 2 < r then f + 1
         else if even f then f else f + 1)"

text \<open>
  The binary64 value nearest to \<open>x\<close>: a significand of 53 bits, and below the
  exponent \<open>- 1022\<close> the fixed spacing of the subnormal values.  The largest exponent
  is not modelled: every result is finite.  That is the case for the handler whenever
  the hourly rate is below \<open>10\<^sup>2\<^sup>9\<^sup>0\<close> in magnitude, the two instants being \<^verbatim>\<open>Date\<close>
  values.
\<close>

definition toDouble :: "rat \<Rightarrow> rat" where
  "toDouble x =
     (if x = 0 then 0
      else let k = max (binade x) (- 1022) - 52
           in of_int (roundEven (x / pow2 k)) * pow2 k)"

text \<open>
  \<^verbatim>\<open>Number.prototype.toFixed(2)\<close>, as the amount that its text denotes: the multiple of
  1/100 nearest to the exact value of the number, the larger in magnitude of two equally
  near ones, and the sign kept.  The text has this form for a number below \<open>10\<^sup>2\<^sup>1\<close> in
  magnitude.
\<close>

definition toFixed2 :: "rat \<Rightarrow> rat" where
  "toFixed2 x =
     (if x < 0 then - (of_int \<lfloor>(- x) * 100 + 1 / 2\<rfloor> / 100)
      else of_int \<lfloor>x * 100 + 1 / 2\<rfloor> / 100)"

text \<open>
  Lines 103 to 106, operation by operation: the difference of the two time values, its
  quotient by \<^verbatim>\<open>1000 * 60 * 60\<close>, the conversion of \<^verbatim>\<open>pricing_per_hour\<close> to a number,
  the product, and \<^verbatim>\<open>toFixed(2)\<close>.
\<close>

definition durationHours :: "int \<Rightarrow> int \<Rightarrow> rat" where
  "durationHours s e = toDouble (toDouble (of_int (e - s)) / (1000 * 60 * 60))"

definition totalCost :: "int \<Rightarrow> int \<Rightarrow> rat \<Rightarrow> rat" where
  "totalCost s e rate = toFixed2 (toDouble (durationHours s e * toDouble rate))"

text \<open>
  The value the store receives for the integer column \<^verbatim>\<open>slot_number\<close>; \<open>None\<close>
  is a value the column rejects (\<^verbatim>\<open>NULL\<close>, or text that is no integer).
\<close>

fun slotColumn :: "env \<Rightarrow> jsval \<Rightarrow> int option" where
  "slotColumn ev (JNum n) = Some n"
| "slotColumn ev (JStr s) = int_of_text ev s"
| "slotColumn ev JNull = None"
| "slotColumn ev JUndefined = None"

text \<open>
  The row that the \<^verbatim>\<open>INSERT\<close> of lines 109 to 113 returns, and the store after it.
  The statement names seven columns; the key and the timestamp take the defaults of the
  table (the next value of the sequence, and \<^verbatim>\<open>NOW()\<close>).  The column
  \<^verbatim>\<open>power_consumption\<close> plays no part in the handlers modelled here and is left out.
\<close>

definition newBooking :: "env \<Rightarrow> store \<Rightarrow> string \<Rightarrow> int \<Rightarrow> int \<Rightarrow> int \<Rightarrow> int \<Rightarrow> rat \<Rightarrow> booking" where
  "newBooking ev db uid st slot s e cost =
     \<lparr>bid = next_bid db, station_id = st, user_id = uid, slot_number = slot,
      start_time = s, end_time = e, total_cost = cost, status = ''pending'',
      updated_at = now ev\<rparr>"

definition insertBooking :: "store \<Rightarrow> booking \<Rightarrow> store" where
  "insertBooking db b = db\<lparr>bookings := bookings db @ [b], next_bid := Suc (next_bid db)\<rparr>"

text \<open>
  The \<^verbatim>\<open>catch\<close> block of lines 128 to 131: \<^verbatim>\<open>ROLLBACK\<close>, then status 500.  Inside the
  transaction the rollback discards every write, so the store is the one the handler
  started from.
\<close>

definition failed :: "store \<Rightarrow> response \<times> store" where
  "failed db = (Failure 500 ''Failed to create booking'', db)"

text \<open>
  The station query of lines 51 to 54: the rows of \<^verbatim>\<open>stations\<close> with this identifier
  and status \<^verbatim>\<open>'active'\<close>.
\<close>

definition activeStation :: "store \<Rightarrow> int \<Rightarrow> station list" where
  "activeStation db st = filter (\<lambda>x. sid x = st \<and> station_status x = ''active'') (stations db)"

text \<open>
  The handler of \<^verbatim>\<open>POST /\<close> (lines 34 to 135) for the authenticated user \<open>uid\<close>.
  After \<^verbatim>\<open>COMMIT\<close> the row is durable: when the emit throws, the \<^verbatim>\<open>catch\<close> block's
  \<^verbatim>\<open>ROLLBACK\<close> finds no open transaction and the response is the 500 all the same.
\<close>

definition createBooking :: "env \<Rightarrow> store \<Rightarrow> string \<Rightarrow> request \<Rightarrow> response \<times> store" where
  "createBooking ev db uid rq =
     (case (req_station_id rq, req_start_time rq, req_end_time rq) of
        (Some st, Some s, Some e) \<Rightarrow>
          if missing_id (Some st) then (Failure 400 ''Missing required fields'', db)
          else if db_throws ev Begin \<or> db_throws ev SelectStation then failed db
          else (case activeStation db st of
                  [] \<Rightarrow> (Failure 404 ''Station not found or inactive'', db)
                | x # _ \<Rightarrow>
                    if db_throws ev CountConflicts then failed db
                    else if conflictCount (bookings db) st s e \<ge> total_slots x
                    then (Failure 409 ''No available slots for selected time'', db)
                    else (case assignSlot ev (bookings db) st s e (total_slots x)
                                 (req_slot_number rq) of
                            None \<Rightarrow> failed db
                          | Some assigned \<Rightarrow>
                              if db_throws ev InsertBooking then failed db
                              else (case slotColumn ev assigned of
                                      None \<Rightarrow> failed db
                                    | Some slot \<Rightarrow>
                                        if db_throws ev Commit then failed db
                                        else
                                          let b = newBooking ev db uid st slot s e
                                                    (totalCost s e (pricing_per_hour x));
                                              db' = insertBooking db b
                                          in if emit_throws ev
                                             then (Failure 500 ''Failed to create booking'', db')
                                             else (Success 201 b, db'))))
      | _ \<Rightarrow> (Failure 400 ''Missing required fields'', db))"

section \<open>Status updates\<close>

text \<open>\<^verbatim>\<open>['active', 'completed', 'cancelled'].includes(status)\<close>\<close>

definition validStatus :: "string \<Rightarrow> bool" where
  "validStatus st = (st \<in> set [''active'', ''completed'', ''cancelled''])"

text \<open>\<^verbatim>\<open>SET status = $1, updated_at = NOW()\<close> on one row.\<close>

definition setStatus :: "env \<Rightarrow> string \<Rightarrow> booking \<Rightarrow> booking" where
  "setStatus ev st b = b\<lparr>status := st, updated_at := now ev\<rparr>"

text \<open>
  An \<^verbatim>\<open>UPDATE ... WHERE hit RETURNING *\<close>: the table afterwards, and the rows returned.
\<close>

definition updateWhere :: "(booking \<Rightarrow> bool) \<Rightarrow> (booking \<Rightarrow> booking) \<Rightarrow> booking list \<Rightarrow> booking list" where
  "updateWhere hit f bs = map (\<lambda>b. if hit b then f b else b) bs"

definition returning :: "(booking \<Rightarrow> bool) \<Rightarrow> (booking \<Rightarrow> booking) \<Rightarrow> booking list \<Rightarrow> booking list" where
  "returning hit f bs = map f (filter hit bs)"

text \<open>The seed entry of lines 166 to 169: reading 0 for the activated booking.\<close>

definition seedLog :: "booking \<Rightarrow> power_log" where
  "seedLog b = \<lparr>pl_station_id = station_id b, pl_booking_id = bid b, power_kw = 0\<rparr>"

text \<open>
  The handler of \<^verbatim>\<open>PUT /:id/status\<close> in \<^verbatim>\<open>routes/bookings.js\<close> (lines 138 to 184) for
  the authenticated user \<open>uid\<close>.  It runs on the pool, outside any transaction: each
  statement that succeeds is durable, whatever happens after it.
\<close>

definition updateStatus :: "env \<Rightarrow> store \<Rightarrow> string \<Rightarrow> nat \<Rightarrow> string \<Rightarrow> response \<times> store" where
  "updateStatus ev db uid i st =
     (if \<not> validStatus st then (Failure 400 ''Invalid status'', db)
      else if db_throws ev UpdateBooking then (Failure 500 ''Failed to update booking'', db)
      else
        let hit = (\<lambda>b. bid b = i \<and> user_id b = uid);
            db1 = db\<lparr>bookings := updateWhere hit (setStatus ev st) (bookings db)\<rparr>
        in (case returning hit (setStatus ev st) (bookings db) of
              [] \<Rightarrow> (Failure 404 ''Booking not found'', db1)
            | b # _ \<Rightarrow>
                if st = ''active'' \<and> db_throws ev InsertPowerLog
                then (Failure 500 ''Failed to update booking'', db1)
                else
                  let db2 = (if st = ''active''
                             then db1\<lparr>power_logs := power_logs db1 @ [seedLog b]\<rparr>
                             else db1)
                  in if emit_throws ev then (Failure 500 ''Failed to update booking'', db2)
                     else (Success 200 b, db2)))"

text \<open>
  The middleware \<^verbatim>\<open>requireAdmin\<close>: \<open>None\<close> lets the request through to the handler.
\<close>

definition requireAdmin :: "env \<Rightarrow> store \<Rightarrow> string \<Rightarrow> response option" where
  "requireAdmin ev db uid =
     (if db_throws ev SelectRole then Some (Failure 500 ''Authentication error'')
      else (case filter (\<lambda>u. fst u = uid) (users db) of
              [] \<Rightarrow> Some (Failure 403 ''Admin access required'')
            | u # _ \<Rightarrow>
                if snd u \<noteq> ''admin'' then Some (Failure 403 ''Admin access required'')
                else None))"

text \<open>
  The admin override \<^verbatim>\<open>PUT /bookings/:id/status\<close> of the admin router, behind
  \<^verbatim>\<open>requireAdmin\<close>.
\<close>

definition adminUpdateStatus :: "env \<Rightarrow> store \<Rightarrow> string \<Rightarrow> nat \<Rightarrow> string \<Rightarrow> response \<times> store" where
  "adminUpdateStatus ev db uid i st =
     (case requireAdmin ev db uid of
        Some r \<Rightarrow> (r, db)
      | None \<Rightarrow>
          if \<not> validStatus st then (Failure 400 ''Invalid status'', db)
          else if db_throws ev UpdateBooking
          then (Failure 500 ''Failed to update booking status'', db)
          else
            let hit = (\<lambda>b. bid b = i);
                db1 = db\<lparr>bookings := updateWhere hit (setStatus ev st) (bookings db)\<rparr>
            in (case returning hit (setStatus ev st) (bookings db) of
                  [] \<Rightarrow> (Failure 404 ''Booking not found'', db1)
                | b # _ \<Rightarrow>
                    if emit_throws ev
                    then (Failure 500 ''Failed to update booking status'', db1)
                    else (Success 200 b, db1)))"

section \<open>Operation sequences and concrete data\<close>

text \<open>Any sequence of \<^verbatim>\<open>POST /bookings\<close> requests, each in its own surroundings.\<close>

fun createAll :: "store \<Rightarrow> (env \<times> string \<times> request) list \<Rightarrow> store" where
  "createAll db [] = db"
| "createAll db ((ev, uid, rq) # rest) = createAll (snd (createBooking ev db uid rq)) rest"

text \<open>
  Half-open overlap of the windows of two rows, and the property the data model asks
  of a pair of rows: an earlier row \<open>a\<close> and a later row \<open>b\<close> that are both pending or
  active on the same slot of the same station.
\<close>

definition overlap :: "booking \<Rightarrow> booking \<Rightarrow> bool" where
  "overlap a b = (start_time a < end_time b \<and> start_time b < end_time a)"

definition sameSlot :: "booking \<Rightarrow> booking \<Rightarrow> bool" where
  "sameSlot a b =
     (station_id a = station_id b \<and> slot_number a = slot_number b \<and> live a \<and> live b)"

text \<open>Some two rows of the table double-book a slot.\<close>

fun doubleBooked :: "booking list \<Rightarrow> bool" where
  "doubleBooked [] = False"
| "doubleBooked (a # bs) = ((\<exists>b \<in> set bs. sameSlot a b \<and> overlap a b) \<or> doubleBooked bs)"

text \<open>
  The weaker property: two rows on one slot overlap only when the later one starts
  before and ends after the earlier one.
\<close>

definition encloses :: "booking \<Rightarrow> booking \<Rightarrow> bool" where
  "encloses b a = (start_time b < start_time a \<and> end_time a < end_time b)"

fun slotsApart :: "booking list \<Rightarrow> bool" where
  "slotsApart [] = True"
| "slotsApart (a # bs) =
     ((\<forall>b \<in> set bs. sameSlot a b \<and> overlap a b \<longrightarrow> encloses b a) \<and> slotsApart bs)"

text \<open>A clock time on the first day of the epoch, in milliseconds.\<close>

definition clock :: "int \<Rightarrow> int \<Rightarrow> int" where
  "clock h m = (h * 60 + m) * 60000"

text \<open>Surroundings in which nothing fails.\<close>

definition quiet :: env where
  "quiet = \<lparr>now = 0, db_throws = (\<lambda>q. False), emit_throws = False,
            int_of_text = (\<lambda>t. None)\<rparr>"

definition depot :: "int \<Rightarrow> station" where
  "depot n = \<lparr>sid = 1, total_slots = n, pricing_per_hour = 25, station_status = ''active''\<rparr>"

definition held :: "nat \<Rightarrow> int \<Rightarrow> int \<Rightarrow> int \<Rightarrow> string \<Rightarrow> booking" where
  "held i slot s e st =
     \<lparr>bid = i, station_id = 1, user_id = ''u1'', slot_number = slot, start_time = s,
      end_time = e, total_cost = 25, status = st, updated_at = 0\<rparr>"

definition shop :: "int \<Rightarrow> booking list \<Rightarrow> store" where
  "shop n bs = \<lparr>stations = [depot n], bookings = bs, power_logs = [],
               users = [(''root'', ''admin'')], next_bid = Suc (length bs)\<rparr>"

definition ask :: "int \<Rightarrow> int \<Rightarrow> jsval \<Rightarrow> request" where
  "ask s e v = \<lparr>req_station_id = Some 1, req_start_time = Some s, req_end_time = Some e,
               req_slot_number = v\<rparr>"

section \<open>Slot search\<close>

lemma findSlot_Some:
  "findSlot used tot i = Some k \<Longrightarrow>
     i \<le> k \<and> k \<le> tot \<and> k \<notin> set used \<and> (\<forall>j. i \<le> j \<and> j < k \<longrightarrow> j \<in> set used)"
proof (induction used tot i rule: findSlot.induct)
  case (1 used tot i)
  show ?case
  proof (cases "i \<le> tot \<and> i \<in> set used")
    case True
    with "1.prems" have "findSlot used tot (i + 1) = Some k"
      by (simp add: findSlot.simps [of used tot i])
    with "1.IH" True
    have ih: "i + 1 \<le> k \<and> k \<le> tot \<and> k \<notin> set used \<and> (\<forall>j. i + 1 \<le> j \<and> j < k \<longrightarrow> j \<in> set used)"
      by simp
    have "j \<in> set used" if "i \<le> j" "j < k" for j
    proof (cases "j = i")
      case True
      with \<open>i \<le> tot \<and> i \<in> set used\<close> show ?thesis by simp
    next
      case False
      with that ih show ?thesis by simp
    qed
    with ih show ?thesis by simp
  next
    case False
    with "1.prems" show ?thesis
      by (auto simp: findSlot.simps [of used tot i] split: if_splits)
  qed
qed

lemma findSlot_None:
  "findSlot used tot i = None \<Longrightarrow> i \<le> j \<Longrightarrow> j \<le> tot \<Longrightarrow> j \<in> set used"
proof (induction used tot i rule: findSlot.induct)
  case (1 used tot i)
  from "1.prems" have it: "i \<le> tot" by simp
  with "1.prems" have here: "i \<in> set used" and rest: "findSlot used tot (i + 1) = None"
    by (auto simp: findSlot.simps [of used tot i] split: if_splits)
  show ?case
  proof (cases "j = i")
    case True
    with here show ?thesis by simp
  next
    case False
    with "1.prems" have "i + 1 \<le> j" by simp
    with "1.IH" it here rest "1.prems" show ?thesis by simp
  qed
qed

lemma findSlot_finds:
  assumes "int (length used) < tot"
  shows "findSlot used tot 1 \<noteq> None"
proof
  assume none: "findSlot used tot 1 = None"
  have "{1..tot} \<subseteq> set used"
    using findSlot_None [OF none] by auto
  then have "card {1..tot} \<le> card (set used)"
    by (intro card_mono) simp_all
  moreover have "card (set used) \<le> length used"
    by (rule card_length)
  ultimately show False using assms by simp
qed

lemma usedRow_conflictRow: "usedRow st s e b \<Longrightarrow> conflictRow st s e b"
  by (auto simp: usedRow_def conflictRow_def conflicts_def)

lemma filter_length_mono:
  "(\<And>x. P x \<Longrightarrow> Q x) \<Longrightarrow> length (filter P xs) \<le> length (filter Q xs)"
  by (induction xs) auto

lemma usedSlots_le_count:
  "int (length (usedSlots bs st s e)) \<le> conflictCount bs st s e"
proof -
  have "length (usedSlots bs st s e) \<le> length (filter (usedRow st s e) bs)"
    unfolding usedSlots_def
    by (rule order_trans [OF length_remdups_leq]) simp
  also have "\<dots> \<le> length (filter (conflictRow st s e) bs)"
    by (rule filter_length_mono) (rule usedRow_conflictRow)
  finally show ?thesis by (simp add: conflictCount_def)
qed

lemma loop_finds:
  "conflictCount bs st s e < tot \<Longrightarrow> \<exists>k. findSlot (usedSlots bs st s e) tot 1 = Some k"
  using findSlot_finds [of "usedSlots bs st s e" tot] usedSlots_le_count [of bs st s e]
  by auto

section \<open>What a request to create a booking can do\<close>

lemma assignSlot_cases:
  assumes "assignSlot ev bs st s e tot v = Some a" and "conflictCount bs st s e < tot"
  shows "(truthy v \<and> a = v) \<or>
         (\<not> truthy v \<and> \<not> db_throws ev SelectUsedSlots \<and>
          (\<exists>k. findSlot (usedSlots bs st s e) tot 1 = Some k \<and> a = JNum k))"
proof (cases "truthy v")
  case True
  with assms(1) show ?thesis by (simp add: assignSlot_def)
next
  case False
  from loop_finds [OF assms(2)] obtain k where "findSlot (usedSlots bs st s e) tot 1 = Some k" ..
  with False assms(1) show ?thesis
    by (auto simp: assignSlot_def split: if_splits)
qed

lemma createBooking_result:
  assumes "createBooking ev db uid rq = (r, db')"
  shows "(db' = db \<and> (\<exists>c m. r = Failure c m)) \<or>
         (\<exists>st s e x xs a slot.
            req_station_id rq = Some st \<and> st \<noteq> 0 \<and>
            req_start_time rq = Some s \<and> req_end_time rq = Some e \<and>
            \<not> db_throws ev Begin \<and> \<not> db_throws ev SelectStation \<and>
            \<not> db_throws ev CountConflicts \<and> \<not> db_throws ev InsertBooking \<and>
            \<not> db_throws ev Commit \<and>
            activeStation db st = x # xs \<and>
            conflictCount (bookings db) st s e < total_slots x \<and>
            assignSlot ev (bookings db) st s e (total_slots x) (req_slot_number rq) = Some a \<and>
            slotColumn ev a = Some slot \<and>
            db' = insertBooking db (newBooking ev db uid st slot s e (totalCost s e (pricing_per_hour x))) \<and>
            r = (if emit_throws ev then Failure 500 ''Failed to create booking''
                 else Success 201 (newBooking ev db uid st slot s e (totalCost s e (pricing_per_hour x)))))"
  using assms unfolding createBooking_def failed_def missing_id_def Let_def
  by (auto split: option.splits list.splits if_splits)

lemma createBooking_admits:
  assumes "req_station_id rq = Some st" "st \<noteq> 0"
    and "req_start_time rq = Some s" "req_end_time rq = Some e"
    and "\<not> db_throws ev Begin" "\<not> db_throws ev SelectStation" "\<not> db_throws ev CountConflicts"
      "\<not> db_throws ev InsertBooking" "\<not> db_throws ev Commit"
    and "activeStation db st = x # xs"
    and "conflictCount (bookings db) st s e < total_slots x"
    and "assignSlot ev (bookings db) st s e (total_slots x) (req_slot_number rq) = Some a"
    and "slotColumn ev a = Some slot"
  shows "createBooking ev db uid rq =
           (if emit_throws ev then Failure 500 ''Failed to create booking''
            else Success 201 (newBooking ev db uid st slot s e (totalCost s e (pricing_per_hour x))),
            insertBooking db (newBooking ev db uid st slot s e (totalCost s e (pricing_per_hour x))))"
  using assms unfolding createBooking_def missing_id_def Let_def
  by simp

lemma assignSlot_falsy:
  assumes "\<not> truthy v" and "conflictCount bs st s e < tot"
  shows "assignSlot ev bs st s e tot v = assignSlot ev bs st s e tot JUndefined"
proof -
  from loop_finds [OF assms(2)] obtain k where "findSlot (usedSlots bs st s e) tot 1 = Some k" ..
  with assms(1) show ?thesis by (simp add: assignSlot_def)
qed

lemma createBooking_falsy:
  assumes "\<not> truthy (req_slot_number rq)"
  shows "createBooking ev db uid rq = createBooking ev db uid (rq\<lparr>req_slot_number := JUndefined\<rparr>)"
  unfolding createBooking_def
  by (auto simp: assignSlot_falsy [OF assms] split: option.splits list.splits)

lemma created_slot_auto:
  assumes "\<not> truthy (req_slot_number rq)"
    and "createBooking ev db uid rq = (Success c b, db')"
  shows "c = 201 \<and> db' = insertBooking db b \<and>
     (\<exists>x xs. activeStation db (station_id b) = x # xs \<and>
        findSlot (usedSlots (bookings db) (station_id b) (start_time b) (end_time b)) (total_slots x) 1 = Some (slot_number b))"
proof -
  from createBooking_result [OF assms(2)] obtain st s e x xs a slot where
    f: "activeStation db st = x # xs" "conflictCount (bookings db) st s e < total_slots x"
       "assignSlot ev (bookings db) st s e (total_slots x) (req_slot_number rq) = Some a"
       "slotColumn ev a = Some slot"
       "Success c b = (if emit_throws ev then Failure 500 ''Failed to create booking''
                 else Success 201 (newBooking ev db uid st slot s e (totalCost s e (pricing_per_hour x))))"
       "db' = insertBooking db (newBooking ev db uid st slot s e (totalCost s e (pricing_per_hour x)))"
    by auto
  from f(5) have b: "b = newBooking ev db uid st slot s e (totalCost s e (pricing_per_hour x))" and c: "c = 201"
    by (auto split: if_splits)
  from assignSlot_cases [OF f(3) f(2)] assms(1) obtain k where
    k: "findSlot (usedSlots (bookings db) st s e) (total_slots x) 1 = Some k" "a = JNum k"
    by auto
  with f(4) have "slot = k" by simp
  with b c f(1) f(6) k show ?thesis by (auto simp: newBooking_def)
qed

section \<open>Falsy slot numbers\<close>

text \<open>
  A \<^verbatim>\<open>slot_number\<close> that is falsy (\<^verbatim>\<open>0\<close>, \<^verbatim>\<open>null\<close>, the empty string) is handled
  exactly as an absent one.  When the booking is created, the status is 201, the row is
  added to the store, and its slot is the least number from 1 up to \<^verbatim>\<open>total_slots\<close>
  of the station that the used-slot query did not return: never 0.  A response 400 can
  only come from a missing station, start or end field, never from the slot number.
\<close>

lemma falsy_slot_number_handled_as_absent:
  assumes "\<not> truthy (req_slot_number rq)"
  shows "createBooking ev db uid rq =
           createBooking ev db uid (rq\<lparr>req_slot_number := JUndefined\<rparr>) \<and>
         (\<forall>c b db'. createBooking ev db uid rq = (Success c b, db') \<longrightarrow>
            c = 201 \<and> db' = insertBooking db b \<and> 1 \<le> slot_number b \<and>
            (\<exists>x xs. activeStation db (station_id b) = x # xs \<and> slot_number b \<le> total_slots x) \<and>
            slot_number b \<notin> set (usedSlots (bookings db) (station_id b) (start_time b) (end_time b)) \<and>
            (\<forall>j. 1 \<le> j \<and> j < slot_number b \<longrightarrow>
               j \<in> set (usedSlots (bookings db) (station_id b) (start_time b) (end_time b)))) \<and>
         (\<forall>m db'. createBooking ev db uid rq = (Failure 400 m, db') \<longrightarrow>
            missing_id (req_station_id rq) \<or> req_start_time rq = None \<or> req_end_time rq = None)"
proof (intro conjI allI impI)
  show "createBooking ev db uid rq = createBooking ev db uid (rq\<lparr>req_slot_number := JUndefined\<rparr>)"
    by (rule createBooking_falsy [OF assms])
next
  fix c b db'
  assume ok: "createBooking ev db uid rq = (Success c b, db')"
  from created_slot_auto [OF assms ok] obtain x xs where
    c: "c = 201" and d: "db' = insertBooking db b"
    and x: "activeStation db (station_id b) = x # xs"
    and k: "findSlot (usedSlots (bookings db) (station_id b) (start_time b) (end_time b)) (total_slots x) 1 = Some (slot_number b)"
    by auto
  note fs = findSlot_Some [OF k]
  show "c = 201" by (rule c)
  show "db' = insertBooking db b" by (rule d)
  show "1 \<le> slot_number b" using fs by simp
  show "\<exists>x xs. activeStation db (station_id b) = x # xs \<and> slot_number b \<le> total_slots x"
    using x fs by auto
  show "slot_number b \<notin> set (usedSlots (bookings db) (station_id b) (start_time b) (end_time b))"
    using fs by simp
  fix j assume "1 \<le> j \<and> j < slot_number b"
  then show "j \<in> set (usedSlots (bookings db) (station_id b) (start_time b) (end_time b))"
    using fs by simp
next
  fix m db'
  assume "createBooking ev db uid rq = (Failure 400 m, db')"
  then show "missing_id (req_station_id rq) \<or> req_start_time rq = None \<or> req_end_time rq = None"
    unfolding createBooking_def failed_def Let_def
    by (auto simp: missing_id_def split: option.splits list.splits if_splits)
qed

lemma falsy_slot_number_handled_as_absent_example:
  "\<not> truthy (req_slot_number (ask (clock 10 30) (clock 11 30) (JNum 0))) \<and>
   createBooking quiet
     (shop 3 [held 1 1 (clock 10 0) (clock 11 0) ''pending'',
              held 2 2 (clock 10 0) (clock 11 0) ''active''])
     ''u2'' (ask (clock 10 30) (clock 11 30) (JNum 0)) =
   createBooking quiet
     (shop 3 [held 1 1 (clock 10 0) (clock 11 0) ''pending'',
              held 2 2 (clock 10 0) (clock 11 0) ''active''])
     ''u2'' ((ask (clock 10 30) (clock 11 30) (JNum 0))\<lparr>req_slot_number := JUndefined\<rparr>) \<and>
   fst (createBooking quiet
     (shop 3 [held 1 1 (clock 10 0) (clock 11 0) ''pending'',
              held 2 2 (clock 10 0) (clock 11 0) ''active''])
     ''u2'' (ask (clock 10 30) (clock 11 30) (JNum 0))) =
   Success 201 ((held 3 3 (clock 10 30) (clock 11 30) ''pending'')\<lparr>user_id := ''u2''\<rparr>) \<and>
   (1::int) \<le> slot_number ((held 3 3 (clock 10 30) (clock 11 30) ''pending'')\<lparr>user_id := ''u2''\<rparr>)"
proof -
  let ?db = "shop 3 [held 1 1 (clock 10 0) (clock 11 0) ''pending'',
                     held 2 2 (clock 10 0) (clock 11 0) ''active'']"
  let ?rq = "ask (clock 10 30) (clock 11 30) (JNum 0)"
  let ?b = "(held 3 3 (clock 10 30) (clock 11 30) ''pending'')\<lparr>user_id := ''u2''\<rparr>"
  have falsy: "\<not> truthy (req_slot_number ?rq)"
    by (simp add: ask_def)
  have run: "createBooking quiet ?db ''u2'' ?rq = (Success 201 ?b, insertBooking ?db ?b)"
    by code_simp
  have same: "createBooking quiet ?db ''u2'' ?rq =
      createBooking quiet ?db ''u2'' (?rq\<lparr>req_slot_number := JUndefined\<rparr>)"
    and slot: "1 \<le> slot_number ?b"
    using falsy_slot_number_handled_as_absent [OF falsy, of quiet ?db "''u2''"] run
    by blast+
  have res: "fst (createBooking quiet ?db ''u2'' ?rq) = Success 201 ?b"
    by (simp only: run fst_conv)
  show ?thesis
    by (intro conjI) (rule falsy, rule same, rule res, rule slot)
qed

text \<open>
  Claim C10, at the input where the code departs from it.  A three-slot station holds a
  pending booking on slot 1 from 10:00 to 11:00, and a request for 09:00 to 12:00 comes
  with \<^verbatim>\<open>slot_number\<close> 0.  The 0 is taken as absent: the request is neither refused nor
  stored with slot 0, and a slot is assigned.  The slot is not the first free one,
  which is 2: the used-slot query does not return the enclosed booking, and the new
  row is stored on slot 1, which that booking occupies in an overlapping window.
\<close>

theorem falsy_slot_number_reuses_occupied_slot:
  "createBooking quiet (shop 3 [held 1 1 (clock 10 0) (clock 11 0) ''pending'']) ''u2''
       (ask (clock 9 0) (clock 12 0) (JNum 0)) =
     (Success 201 ((held 2 1 (clock 9 0) (clock 12 0) ''pending'')
                     \<lparr>user_id := ''u2'', total_cost := 75\<rparr>),
      shop 3 [held 1 1 (clock 10 0) (clock 11 0) ''pending'',
              (held 2 1 (clock 9 0) (clock 12 0) ''pending'')
                \<lparr>user_id := ''u2'', total_cost := 75\<rparr>]) \<and>
   sameSlot (held 1 1 (clock 10 0) (clock 11 0) ''pending'')
     ((held 2 1 (clock 9 0) (clock 12 0) ''pending'')\<lparr>user_id := ''u2'', total_cost := 75\<rparr>) \<and>
   overlap (held 1 1 (clock 10 0) (clock 11 0) ''pending'')
     ((held 2 1 (clock 9 0) (clock 12 0) ''pending'')\<lparr>user_id := ''u2'', total_cost := 75\<rparr>)"
  by code_simp

section \<open>The conflict checker\<close>

text \<open>
  On windows that do not end before they start, the three alternatives of the conflict
  query are the overlap of the closed intervals.
\<close>

lemma conflicts_closed_intervals:
  "s \<le> e \<Longrightarrow> bs \<le> be \<Longrightarrow> conflicts s e bs be \<longleftrightarrow> s \<le> be \<and> bs \<le> e"
  by (auto simp: conflicts_def between_def)

lemma half_open_overlap_conflicts:
  "s < be \<Longrightarrow> bs < e \<Longrightarrow> conflicts s e bs be"
  by (auto simp: conflicts_def between_def)

text \<open>
  Claim C2, at the input where the code departs from it.  A one-slot station holds a
  pending booking from 10:00 to 11:00.  A request for 11:00 to 12:00 touches it in one
  instant only, so under half-open windows (\<open>s1 < e2\<close> and \<open>s2 < e1\<close>) the two do not
  overlap; the conflict query counts the stored booking all the same, and the request
  is refused with 409.  The windows 10:00 to 11:00 and 10:30 to 11:30 conflict, as they
  should.
\<close>

theorem touching_windows_are_counted_as_conflict:
  "\<not> (clock 11 0 < clock 11 0 \<and> clock 10 0 < clock 12 0) \<and>
   conflicts (clock 11 0) (clock 12 0) (clock 10 0) (clock 11 0) \<and>
   conflicts (clock 10 30) (clock 11 30) (clock 10 0) (clock 11 0) \<and>
   conflictCount [held 1 1 (clock 10 0) (clock 11 0) ''pending''] 1 (clock 11 0) (clock 12 0) = 1 \<and>
   createBooking quiet (shop 1 [held 1 1 (clock 10 0) (clock 11 0) ''pending'']) ''u2''
       (ask (clock 11 0) (clock 12 0) JUndefined) =
     (Failure 409 ''No available slots for selected time'',
      shop 1 [held 1 1 (clock 10 0) (clock 11 0) ''pending''])"
  by code_simp

section \<open>The slot resolver\<close>

text \<open>
  Claim C4, at the input where the code departs from it.  A three-slot station holds a
  pending booking on slot 1 from 10:00 to 11:00.  A request for 09:00 to 12:00 without
  a slot number overlaps it, and the conflict query counts it; the used-slot query,
  which lacks the third alternative, returns no row, and the scan hands out slot 1
  again instead of slot 2.
\<close>

theorem enclosing_request_reuses_occupied_slot:
  "conflictCount [held 1 1 (clock 10 0) (clock 11 0) ''pending''] 1 (clock 9 0) (clock 12 0) = 1 \<and>
   usedSlots [held 1 1 (clock 10 0) (clock 11 0) ''pending''] 1 (clock 9 0) (clock 12 0) = [] \<and>
   fst (createBooking quiet (shop 3 [held 1 1 (clock 10 0) (clock 11 0) ''pending'']) ''u2''
          (ask (clock 9 0) (clock 12 0) JUndefined)) =
     Success 201 ((held 2 1 (clock 9 0) (clock 12 0) ''pending'')
                    \<lparr>user_id := ''u2'', total_cost := 75\<rparr>)"
  by code_simp

section \<open>Requested slot numbers\<close>

lemma assignSlot_truthy: "truthy v \<Longrightarrow> assignSlot ev bs st s e tot v = Some v"
  by (simp add: assignSlot_def)

lemma createBooking_full:
  assumes "req_station_id rq = Some st" "st \<noteq> 0"
    and "req_start_time rq = Some s" "req_end_time rq = Some e"
    and "\<not> db_throws ev Begin" "\<not> db_throws ev SelectStation" "\<not> db_throws ev CountConflicts"
    and "activeStation db st = x # xs"
    and "total_slots x \<le> conflictCount (bookings db) st s e"
  shows "createBooking ev db uid rq = (Failure 409 ''No available slots for selected time'', db)"
  using assms unfolding createBooking_def missing_id_def
  by simp

text \<open>
  Claim C3 fails on the code: a slot number that is occupied by an overlapping active
  booking is accepted, and so is one beyond \<^verbatim>\<open>total_slots\<close>.
\<close>

theorem requested_slot_not_validated_counterexample:
  "fst (createBooking quiet (shop 2 [held 1 2 (clock 10 0) (clock 11 0) ''active'']) ''u2''
          (ask (clock 10 30) (clock 11 30) (JNum 2))) =
     Success 201 ((held 2 2 (clock 10 30) (clock 11 30) ''pending'')\<lparr>user_id := ''u2''\<rparr>) \<and>
   fst (createBooking quiet (shop 2 [held 1 2 (clock 10 0) (clock 11 0) ''active'']) ''u2''
          (ask (clock 10 30) (clock 11 30) (JNum 7))) =
     Success 201 ((held 2 7 (clock 10 30) (clock 11 30) ''pending'')\<lparr>user_id := ''u2''\<rparr>)"
  by code_simp

text \<open>
  Claim C3 as amended.  A slot number \<open>n \<noteq> 0\<close> in the request is stored as it is: it
  is compared neither with \<^verbatim>\<open>total_slots\<close> nor with the slots of overlapping bookings.
  For an active station and with nothing failing around the handler, the booking is
  created with slot \<open>n\<close> whenever the conflict count is below \<^verbatim>\<open>total_slots\<close>; when
  the count has reached \<^verbatim>\<open>total_slots\<close> the request fails with 409 and the store is
  unchanged.  No other outcome depends on occupancy.
\<close>

theorem requested_slot_is_stored_unchecked:
  assumes "req_station_id rq = Some st" "st \<noteq> 0"
    and "req_start_time rq = Some s" "req_end_time rq = Some e"
    and "req_slot_number rq = JNum n" "n \<noteq> 0"
    and "\<not> db_throws ev Begin" "\<not> db_throws ev SelectStation" "\<not> db_throws ev CountConflicts"
      "\<not> db_throws ev InsertBooking" "\<not> db_throws ev Commit" "\<not> emit_throws ev"
    and "activeStation db st = x # xs"
  shows "(conflictCount (bookings db) st s e < total_slots x \<longrightarrow>
           createBooking ev db uid rq =
             (Success 201 (newBooking ev db uid st n s e (totalCost s e (pricing_per_hour x))),
              insertBooking db (newBooking ev db uid st n s e (totalCost s e (pricing_per_hour x))))) \<and>
         (total_slots x \<le> conflictCount (bookings db) st s e \<longrightarrow>
           createBooking ev db uid rq =
             (Failure 409 ''No available slots for selected time'', db))"
proof (intro conjI impI)
  assume room: "conflictCount (bookings db) st s e < total_slots x"
  have a: "assignSlot ev (bookings db) st s e (total_slots x) (req_slot_number rq) = Some (JNum n)"
    using assms(5,6) by (simp add: assignSlot_truthy)
  have c: "slotColumn ev (JNum n) = Some n" by simp
  from createBooking_admits [OF assms(1-4) assms(7-11) assms(13) room a c] assms(12)
  show "createBooking ev db uid rq =
             (Success 201 (newBooking ev db uid st n s e (totalCost s e (pricing_per_hour x))),
              insertBooking db (newBooking ev db uid st n s e (totalCost s e (pricing_per_hour x))))"
    by simp
next
  assume "total_slots x \<le> conflictCount (bookings db) st s e"
  then show "createBooking ev db uid rq =
             (Failure 409 ''No available slots for selected time'', db)"
    by (rule createBooking_full [OF assms(1-4) assms(7-9) assms(13)])
qed

theorem requested_slot_is_stored_unchecked_witness:
  "createBooking quiet (shop 2 [held 1 2 (clock 10 0) (clock 11 0) ''active'']) ''u2''
      (ask (clock 10 30) (clock 11 30) (JNum 7)) =
     (Success 201
        (newBooking quiet (shop 2 [held 1 2 (clock 10 0) (clock 11 0) ''active'']) ''u2'' 1 7
           (clock 10 30) (clock 11 30) (totalCost (clock 10 30) (clock 11 30) (pricing_per_hour (depot 2)))),
      insertBooking (shop 2 [held 1 2 (clock 10 0) (clock 11 0) ''active''])
        (newBooking quiet (shop 2 [held 1 2 (clock 10 0) (clock 11 0) ''active'']) ''u2'' 1 7
           (clock 10 30) (clock 11 30) (totalCost (clock 10 30) (clock 11 30) (pricing_per_hour (depot 2))))) \<and>
   createBooking quiet (shop 1 [held 1 2 (clock 10 0) (clock 11 0) ''active'']) ''u2''
      (ask (clock 10 30) (clock 11 30) (JNum 7)) =
     (Failure 409 ''No available slots for selected time'',
      shop 1 [held 1 2 (clock 10 0) (clock 11 0) ''active''])"
proof -
  let ?bs = "[held 1 2 (clock 10 0) (clock 11 0) ''active'']"
  let ?rq = "ask (clock 10 30) (clock 11 30) (JNum 7)"
  have rq: "req_station_id ?rq = Some 1" "(1::int) \<noteq> 0"
    "req_start_time ?rq = Some (clock 10 30)" "req_end_time ?rq = Some (clock 11 30)"
    "req_slot_number ?rq = JNum 7" "(7::int) \<noteq> 0"
    by (simp_all add: ask_def)
  have ev: "\<not> db_throws quiet Begin" "\<not> db_throws quiet SelectStation"
    "\<not> db_throws quiet CountConflicts" "\<not> db_throws quiet InsertBooking"
    "\<not> db_throws quiet Commit" "\<not> emit_throws quiet"
    by (simp_all add: quiet_def)
  have st: "activeStation (shop n ?bs) 1 = depot n # []" for n
    by (simp add: activeStation_def shop_def depot_def)
  have cnt: "conflictCount (bookings (shop n ?bs)) 1 (clock 10 30) (clock 11 30) = 1" for n
    by (simp add: shop_def held_def clock_def conflictCount_def conflictRow_def live_def
        conflicts_def between_def)
  have two: "conflictCount (bookings (shop 2 ?bs)) 1 (clock 10 30) (clock 11 30) < total_slots (depot 2)"
    and one: "total_slots (depot 1) \<le> conflictCount (bookings (shop 1 ?bs)) 1 (clock 10 30) (clock 11 30)"
    unfolding cnt by (simp_all add: depot_def)
  from requested_slot_is_stored_unchecked [OF rq ev st, of 2 "''u2''"] two
    requested_slot_is_stored_unchecked [OF rq ev st, of 1 "''u2''"] one
  show ?thesis by blast
qed

section \<open>The cost of a booking\<close>

lemma pow2_pos: "0 < pow2 k"
  by (simp add: pow2_def)

lemma pow2_Suc: "pow2 (k + 1) = 2 * pow2 k"
proof (cases "0 \<le> k")
  case True
  then show ?thesis by (simp add: pow2_def nat_add_distrib)
next
  case False
  then have "nat (- k) = Suc (nat (- (k + 1)))" by simp
  with False show ?thesis by (simp add: pow2_def)
qed

lemma pow2_diff:
  assumes "0 \<le> a" "0 \<le> b"
  shows "pow2 (a - b) = 2 ^ nat a / 2 ^ nat b"
proof (cases "b \<le> a")
  case True
  with assms have "nat a = nat (a - b) + nat b" by simp
  then have "(2::rat) ^ nat a = 2 ^ nat (a - b) * 2 ^ nat b" by (simp add: power_add)
  with True show ?thesis by (simp add: pow2_def)
next
  case False
  with assms have "nat b = nat (b - a) + nat a" by simp
  then have "(2::rat) ^ nat b = 2 ^ nat (b - a) * 2 ^ nat a" by (simp add: power_add)
  with False show ?thesis by (simp add: pow2_def)
qed

text \<open>\<open>binade\<close> is the exponent it is meant to be.\<close>

lemma binade_bounds:
  assumes "x \<noteq> 0"
  shows "pow2 (binade x) \<le> \<bar>x\<bar> \<and> \<bar>x\<bar> < pow2 (binade x + 1)"
proof -
  obtain p q where pq: "quotient_of \<bar>x\<bar> = (p, q)" by (cases "quotient_of \<bar>x\<bar>")
  then have q: "0 < q" and x: "\<bar>x\<bar> = of_int p / of_int q"
    by (auto dest: quotient_of_denom_pos quotient_of_div)
  from assms have "0 < \<bar>x\<bar>" by simp
  with x q have p: "0 < p" by (simp add: zero_less_divide_iff)
  let ?d = "bitlen p - bitlen q"
  from bitlen_bounds [OF p] have pb: "(2::int) ^ nat (bitlen p - 1) \<le> p" "p < 2 ^ nat (bitlen p)" by simp_all
  from bitlen_bounds [OF q] have qb: "(2::int) ^ nat (bitlen q - 1) \<le> q" "q < 2 ^ nat (bitlen q)" by simp_all
  have bp: "1 \<le> bitlen p" and bq: "1 \<le> bitlen q"
    using p q by (simp_all add: bitlen_alt_def)
  have rp: "(2::rat) ^ nat (bitlen p - 1) \<le> of_int p" "(of_int p :: rat) < 2 ^ nat (bitlen p)"
    using pb by (metis of_int_le_iff of_int_numeral of_int_power, metis of_int_less_iff of_int_numeral of_int_power)
  have rq: "(2::rat) ^ nat (bitlen q - 1) \<le> of_int q" "(of_int q :: rat) < 2 ^ nat (bitlen q)"
    using qb by (metis of_int_le_iff of_int_numeral of_int_power, metis of_int_less_iff of_int_numeral of_int_power)
  have qpos: "(0::rat) < of_int q" using q by simp
  have hi: "\<bar>x\<bar> < pow2 (?d + 1)"
  proof -
    have "pow2 (?d + 1) = pow2 (bitlen p - (bitlen q - 1))" by (simp add: algebra_simps)
    also have "\<dots> = 2 ^ nat (bitlen p) / 2 ^ nat (bitlen q - 1)"
      using bp bq by (intro pow2_diff) simp_all
    finally have e: "pow2 (?d + 1) = 2 ^ nat (bitlen p) / 2 ^ nat (bitlen q - 1)" .
    have "of_int p / of_int q < (2::rat) ^ nat (bitlen p) / 2 ^ nat (bitlen q - 1)"
      using rp(2) rq(1) qpos p by (intro frac_less) simp_all
    with x e show ?thesis by simp
  qed
  have lo: "pow2 (?d - 1) \<le> \<bar>x\<bar>"
  proof -
    have "pow2 (?d - 1) = pow2 ((bitlen p - 1) - bitlen q)" by (simp add: algebra_simps)
    also have "\<dots> = 2 ^ nat (bitlen p - 1) / 2 ^ nat (bitlen q)"
      using bp bq by (intro pow2_diff) simp_all
    finally have e: "pow2 (?d - 1) = 2 ^ nat (bitlen p - 1) / 2 ^ nat (bitlen q)" .
    have "(2::rat) ^ nat (bitlen p - 1) / 2 ^ nat (bitlen q) \<le> of_int p / of_int q"
      using rp(1) rq(2) qpos p by (intro frac_le) simp_all
    with x e show ?thesis by simp
  qed
  have b: "binade x = (if pow2 ?d \<le> \<bar>x\<bar> then ?d else ?d - 1)"
    by (simp add: binade_def pq Let_def)
  show ?thesis
  proof (cases "pow2 ?d \<le> \<bar>x\<bar>")
    case True
    with b hi show ?thesis by simp
  next
    case False
    with b lo show ?thesis by simp
  qed
qed

lemma roundEven_near: "\<bar>of_int (roundEven y) - y\<bar> \<le> 1 / 2"
  unfolding roundEven_def Let_def by (auto simp: abs_if; linarith)

lemma roundEven_nonneg: "0 \<le> y \<Longrightarrow> 0 \<le> roundEven y"
  by (simp add: roundEven_def Let_def)

lemma roundEven_nonpos:
  assumes "y \<le> 0"
  shows "roundEven y \<le> 0"
proof (cases "y = 0")
  case True
  then show ?thesis by (simp add: roundEven_def)
next
  case False
  with assms have "y < 0" by simp
  then have "\<lfloor>y\<rfloor> + 1 \<le> 0" by linarith
  then show ?thesis by (simp add: roundEven_def Let_def)
qed

lemma toDouble_zero: "toDouble 0 = 0"
  by (simp add: toDouble_def)

lemma toDouble_nonneg:
  assumes "0 \<le> x"
  shows "0 \<le> toDouble x"
proof (cases "x = 0")
  case True
  then show ?thesis by (simp add: toDouble_zero)
next
  case False
  let ?k = "max (binade x) (- 1022) - 52"
  from assms pow2_pos [of ?k] have "0 \<le> x / pow2 ?k" by simp
  then have "0 \<le> roundEven (x / pow2 ?k)" by (rule roundEven_nonneg)
  with pow2_pos [of ?k] False show ?thesis
    by (simp add: toDouble_def Let_def)
qed

lemma toDouble_nonpos:
  assumes "x \<le> 0"
  shows "toDouble x \<le> 0"
proof (cases "x = 0")
  case True
  then show ?thesis by (simp add: toDouble_zero)
next
  case False
  let ?k = "max (binade x) (- 1022) - 52"
  from assms pow2_pos [of ?k] have "x / pow2 ?k \<le> 0" by (simp add: divide_le_0_iff)
  then have "roundEven (x / pow2 ?k) \<le> 0" by (rule roundEven_nonpos)
  with pow2_pos [of ?k] False show ?thesis
    by (simp add: toDouble_def Let_def mult_le_0_iff)
qed

text \<open>Rounding to a double moves a number by at most half the spacing at its exponent.\<close>

lemma toDouble_near:
  assumes "x \<noteq> 0"
  shows "\<bar>toDouble x - x\<bar> \<le> pow2 (max (binade x) (- 1022) - 53)"
proof -
  let ?k = "max (binade x) (- 1022) - 52"
  have q: "0 < pow2 ?k" by (rule pow2_pos)
  have "\<bar>of_int (roundEven (x / pow2 ?k)) - x / pow2 ?k\<bar> \<le> 1 / 2" by (rule roundEven_near)
  then have "\<bar>of_int (roundEven (x / pow2 ?k)) - x / pow2 ?k\<bar> * pow2 ?k \<le> 1 / 2 * pow2 ?k"
    using q by (intro mult_right_mono) simp_all
  moreover have "\<bar>of_int (roundEven (x / pow2 ?k)) - x / pow2 ?k\<bar> * pow2 ?k =
      \<bar>of_int (roundEven (x / pow2 ?k)) * pow2 ?k - x\<bar>"
  proof -
    have "of_int (roundEven (x / pow2 ?k)) * pow2 ?k - x =
        (of_int (roundEven (x / pow2 ?k)) - x / pow2 ?k) * pow2 ?k"
      using q by (simp add: left_diff_distrib)
    then have "\<bar>of_int (roundEven (x / pow2 ?k)) * pow2 ?k - x\<bar> =
        \<bar>of_int (roundEven (x / pow2 ?k)) - x / pow2 ?k\<bar> * \<bar>pow2 ?k\<bar>"
      by (simp only: abs_mult)
    with q show ?thesis by simp
  qed
  moreover have "pow2 ?k = 2 * pow2 (max (binade x) (- 1022) - 53)"
    using pow2_Suc [of "max (binade x) (- 1022) - 53"] by (simp add: algebra_simps)
  ultimately show ?thesis using assms by (simp add: toDouble_def Let_def)
qed

text \<open>
  Two amounts at which the double-precision product and the exact product round to
  different cents: 522000 ms at rate 25, and half an hour at rate 2.01.
\<close>

lemma totalCost_double_examples:
  "totalCost 0 522000 25 = 362 / 100 \<and> toFixed2 (522000 / 3600000 * 25) = 363 / 100 \<and>
   totalCost 0 1800000 (201 / 100) = 1 \<and> toFixed2 (1800000 / 3600000 * (201 / 100)) = 101 / 100"
  by code_simp

lemma toFixed2_near: "\<bar>toFixed2 y - y\<bar> \<le> 1 / 200"
proof -
  have fl: "of_int \<lfloor>z + 1 / 2\<rfloor> \<le> z + 1 / 2 \<and> z + 1 / 2 < of_int \<lfloor>z + 1 / 2\<rfloor> + 1" for z :: rat
    by linarith
  show ?thesis
  proof (cases "y < 0")
    case True
    from fl [of "(- y) * 100"] True show ?thesis
      unfolding toFixed2_def by (simp add: abs_if field_simps; linarith)
  next
    case False
    from fl [of "y * 100"] False show ?thesis
      unfolding toFixed2_def by (simp add: abs_if field_simps; linarith)
  qed
qed

lemma toFixed2_cents: "\<exists>k::int. toFixed2 y = of_int k / 100"
proof (cases "y < 0")
  case True
  then have "toFixed2 y = of_int (- \<lfloor>(- y) * 100 + 1 / 2\<rfloor>) / 100"
    by (simp add: toFixed2_def)
  then show ?thesis ..
next
  case False
  then have "toFixed2 y = of_int \<lfloor>y * 100 + 1 / 2\<rfloor> / 100"
    by (simp add: toFixed2_def)
  then show ?thesis ..
qed

lemma toFixed2_zero: "toFixed2 0 = 0"
proof -
  have "\<lfloor>1 / 2 :: rat\<rfloor> = 0" by (simp add: floor_eq_iff)
  then show ?thesis by (simp add: toFixed2_def)
qed

lemma toFixed2_nonneg: "0 \<le> y \<Longrightarrow> 0 \<le> toFixed2 y"
  by (simp add: toFixed2_def)

lemma toFixed2_nonpos: "y \<le> 0 \<Longrightarrow> toFixed2 y \<le> 0"
proof (cases "y < 0")
  case True
  then have "0 \<le> \<lfloor>(- y) * 100 + 1 / 2\<rfloor>" by simp
  with True show ?thesis by (simp add: toFixed2_def)
next
  case False
  moreover assume "y \<le> 0"
  ultimately have "y = 0" by simp
  then show ?thesis by (simp add: toFixed2_zero)
qed

lemma assignSlot_column:
  assumes "\<not> db_throws ev SelectUsedSlots" and "\<forall>t. v \<noteq> JStr t"
    and "conflictCount bs st s e < tot"
  shows "\<exists>a slot. assignSlot ev bs st s e tot v = Some a \<and> slotColumn ev a = Some slot"
proof (cases "truthy v")
  case True
  with assms(2) obtain n where "v = JNum n" by (cases v) auto
  with True show ?thesis by (simp add: assignSlot_def)
next
  case False
  from loop_finds [OF assms(3)] obtain k where "findSlot (usedSlots bs st s e) tot 1 = Some k" ..
  with False assms(1) show ?thesis by (simp add: assignSlot_def)
qed

text \<open>
  Claim C5 fails on the code: no window is rejected.  At a station with rate 25 a
  request from 10:00 to 10:00 is answered 201 with cost 0, and a request from 12:00
  back to 10:00 is answered 201 with cost \<open>- 50\<close>.
\<close>

theorem empty_window_is_booked_counterexample:
  "fst (createBooking quiet (shop 2 []) ''u2'' (ask (clock 10 0) (clock 10 0) JUndefined)) =
     Success 201 ((held 1 1 (clock 10 0) (clock 10 0) ''pending'')
                    \<lparr>user_id := ''u2'', total_cost := 0\<rparr>) \<and>
   fst (createBooking quiet (shop 2 []) ''u2'' (ask (clock 12 0) (clock 10 0) JUndefined)) =
     Success 201 ((held 1 1 (clock 12 0) (clock 10 0) ''pending'')
                    \<lparr>user_id := ''u2'', total_cost := - 50\<rparr>)"
  by code_simp

text \<open>
  Claim C5 as amended.  The handler has no check of the window.  With the required
  fields present, a slot number that is absent or a number, an active station, a
  conflict count below \<^verbatim>\<open>total_slots\<close> and nothing failing around the handler, the
  booking is created for every \<open>s\<close> and \<open>e\<close> in the range of \<^verbatim>\<open>Date\<close>, also when
  \<open>e \<le> s\<close>, the hourly rate being at most \<open>10\<^sup>9\<close> in magnitude.  Its cost is what
  \<^verbatim>\<open>toFixed(2)\<close> makes of the double-precision product of the duration in hours and
  the hourly rate: a multiple of 1/100 at most half a cent away from that product (and
  so, now and then, one cent away from the rounding of the exact product).  For a rate
  that is not negative the cost is at least 0 when \<open>s \<le> e\<close>, exactly 0 when
  \<open>e = s\<close>, and at most 0 when \<open>e < s\<close>.
\<close>

theorem cost_is_rounded_product_for_any_window:
  assumes "req_station_id rq = Some st" "st \<noteq> 0"
    and "req_start_time rq = Some s" "req_end_time rq = Some e"
    and "\<forall>t. req_slot_number rq \<noteq> JStr t"
    and "\<forall>q. \<not> db_throws ev q" "\<not> emit_throws ev"
    and "activeStation db st = x # xs"
    and "conflictCount (bookings db) st s e < total_slots x"
    and "\<bar>s\<bar> \<le> 8640000000000000" "\<bar>e\<bar> \<le> 8640000000000000"
    and "\<bar>pricing_per_hour x\<bar> \<le> 10 ^ 9"
  shows "\<exists>b. createBooking ev db uid rq = (Success 201 b, insertBooking db b) \<and>
           start_time b = s \<and> end_time b = e \<and>
           total_cost b = totalCost s e (pricing_per_hour x) \<and>
           \<bar>total_cost b -
              toDouble (toDouble (toDouble (of_int (e - s)) / 3600000) *
                        toDouble (pricing_per_hour x))\<bar> \<le> 1 / 200 \<and>
           (\<exists>k::int. total_cost b = of_int k / 100) \<and>
           (0 \<le> pricing_per_hour x \<longrightarrow>
              (s \<le> e \<longrightarrow> 0 \<le> total_cost b) \<and>
              (e = s \<longrightarrow> total_cost b = 0) \<and>
              (e < s \<longrightarrow> total_cost b \<le> 0))"
proof -
  let ?r = "toDouble (pricing_per_hour x)"
  let ?y = "toDouble (durationHours s e * ?r)"
  from assignSlot_column [OF _ assms(5) assms(9)] assms(6)
  obtain a slot where
    a: "assignSlot ev (bookings db) st s e (total_slots x) (req_slot_number rq) = Some a"
    and c: "slotColumn ev a = Some slot"
    by blast
  let ?b = "newBooking ev db uid st slot s e (totalCost s e (pricing_per_hour x))"
  from assms(6) have q: "\<not> db_throws ev Begin" "\<not> db_throws ev SelectStation"
    "\<not> db_throws ev CountConflicts" "\<not> db_throws ev InsertBooking" "\<not> db_throws ev Commit"
    by simp_all
  from createBooking_admits [OF assms(1-4) q assms(8,9) a c] assms(7)
  have run: "createBooking ev db uid rq = (Success 201 ?b, insertBooking db ?b)"
    by simp
  have cost: "total_cost ?b = toFixed2 ?y"
    by (simp add: newBooking_def totalCost_def)
  have dur: "durationHours s e = toDouble (toDouble (of_int (e - s)) / 3600000)"
    by (simp add: durationHours_def)
  have near: "\<bar>total_cost ?b -
      toDouble (toDouble (toDouble (of_int (e - s)) / 3600000) * ?r)\<bar> \<le> 1 / 200"
    using toFixed2_near [of ?y] by (simp only: cost dur)
  have cents: "\<exists>k::int. total_cost ?b = of_int k / 100"
    using toFixed2_cents [of ?y] by (simp only: cost)
  have sign: "(s \<le> e \<longrightarrow> 0 \<le> total_cost ?b) \<and> (e = s \<longrightarrow> total_cost ?b = 0) \<and>
              (e < s \<longrightarrow> total_cost ?b \<le> 0)" if rate: "0 \<le> pricing_per_hour x"
  proof (intro conjI impI)
    from rate have r: "0 \<le> ?r" by (rule toDouble_nonneg)
    {
      assume "s \<le> e"
      then have "0 \<le> toDouble (of_int (e - s)) / 3600000"
        by (simp add: toDouble_nonneg)
      then have "0 \<le> durationHours s e"
        unfolding dur by (rule toDouble_nonneg)
      with r have "0 \<le> durationHours s e * ?r" by simp
      then have "0 \<le> ?y" by (rule toDouble_nonneg)
      then show "0 \<le> total_cost ?b" unfolding cost by (rule toFixed2_nonneg)
    }
    {
      assume "e = s"
      then have "durationHours s e = 0" unfolding dur by (simp add: toDouble_zero)
      then have "?y = 0" by (simp add: toDouble_zero)
      then have "toFixed2 ?y = 0" by (simp only: toFixed2_zero)
      then show "total_cost ?b = 0" by (simp only: cost)
    }
    {
      assume "e < s"
      then have "toDouble (of_int (e - s)) \<le> 0"
        by (intro toDouble_nonpos) simp
      then have "toDouble (of_int (e - s)) / 3600000 \<le> 0"
        by (simp add: divide_le_0_iff)
      then have "durationHours s e \<le> 0"
        unfolding dur by (rule toDouble_nonpos)
      with r have "durationHours s e * ?r \<le> 0" by (simp add: mult_le_0_iff)
      then have "?y \<le> 0" by (rule toDouble_nonpos)
      then show "total_cost ?b \<le> 0" unfolding cost by (rule toFixed2_nonpos)
    }
  qed
  have fields: "start_time ?b = s" "end_time ?b = e"
    "total_cost ?b = totalCost s e (pricing_per_hour x)"
    by (simp_all add: newBooking_def)
  from run fields near cents sign show ?thesis by blast
qed

theorem cost_is_rounded_product_for_any_window_witness:
  "(\<exists>b. createBooking quiet (shop 2 []) ''u2'' (ask (clock 10 0) (clock 12 0) JUndefined) =
          (Success 201 b, insertBooking (shop 2 []) b) \<and> total_cost b = 50) \<and>
   (\<exists>b. createBooking quiet (shop 2 []) ''u2'' (ask (clock 10 0) (clock 10 0) JUndefined) =
          (Success 201 b, insertBooking (shop 2 []) b) \<and> total_cost b = 0) \<and>
   (\<exists>b. createBooking quiet (shop 2 []) ''u2''
          (ask (clock 10 0) (clock 10 0 + 522000) JUndefined) =
          (Success 201 b, insertBooking (shop 2 []) b) \<and> total_cost b = 362 / 100)"
proof -
  have id: "req_station_id (ask s e JUndefined) = Some 1" for s e
    by (simp add: ask_def)
  have nz: "(1::int) \<noteq> 0"
    by simp
  have win: "req_start_time (ask s e JUndefined) = Some s"
    "req_end_time (ask s e JUndefined) = Some e"
    "\<forall>t. req_slot_number (ask s e JUndefined) \<noteq> JStr t" for s e
    by (simp_all add: ask_def)
  have ev: "\<forall>q. \<not> db_throws quiet q" "\<not> emit_throws quiet"
    by (simp_all add: quiet_def)
  have st: "activeStation (shop 2 []) 1 = depot 2 # []"
    by (simp add: activeStation_def shop_def depot_def)
  have room: "conflictCount (bookings (shop 2 [])) 1 s e < total_slots (depot 2)" for s e
    by (simp add: shop_def depot_def conflictCount_def)
  have rate: "pricing_per_hour (depot 2) = 25"
    by (simp add: depot_def)
  have dates: "\<bar>clock 10 0\<bar> \<le> 8640000000000000" "\<bar>clock 12 0\<bar> \<le> 8640000000000000"
    "\<bar>clock 10 0 + 522000\<bar> \<le> 8640000000000000"
    by (simp_all add: clock_def)
  have small: "\<bar>pricing_per_hour (depot 2)\<bar> \<le> 10 ^ 9"
    by (simp add: depot_def)
  have two: "totalCost (clock 10 0) (clock 12 0) 25 = 50"
    by code_simp
  have none: "totalCost (clock 10 0) (clock 10 0) 25 = 0"
    by code_simp
  have odd: "totalCost (clock 10 0) (clock 10 0 + 522000) 25 = 362 / 100"
    by code_simp
  from cost_is_rounded_product_for_any_window
    [OF id nz win [of "clock 10 0" "clock 12 0"] ev st room dates(1,2) small, of "''u2''"]
  have first: "\<exists>b. createBooking quiet (shop 2 []) ''u2'' (ask (clock 10 0) (clock 12 0) JUndefined) =
          (Success 201 b, insertBooking (shop 2 []) b) \<and> total_cost b = 50"
    unfolding rate two by blast
  from cost_is_rounded_product_for_any_window
    [OF id nz win [of "clock 10 0" "clock 10 0"] ev st room dates(1,1) small, of "''u2''"]
  have second: "\<exists>b. createBooking quiet (shop 2 []) ''u2'' (ask (clock 10 0) (clock 10 0) JUndefined) =
          (Success 201 b, insertBooking (shop 2 []) b) \<and> total_cost b = 0"
    unfolding rate none by blast
  from cost_is_rounded_product_for_any_window
    [OF id nz win [of "clock 10 0" "clock 10 0 + 522000"] ev st room dates(1,3) small, of "''u2''"]
  have third: "\<exists>b. createBooking quiet (shop 2 []) ''u2''
          (ask (clock 10 0) (clock 10 0 + 522000) JUndefined) =
          (Success 201 b, insertBooking (shop 2 []) b) \<and> total_cost b = 362 / 100"
    unfolding rate odd by blast
  from first second third show ?thesis by (intro conjI)
qed

section \<open>Errors and the store\<close>

text \<open>
  Claim C7, at the input where the code departs from it.  The request is valid and the
  station is empty, and the emit after \<^verbatim>\<open>COMMIT\<close> throws.  The \<^verbatim>\<open>catch\<close> block
  answers 500 \<^verbatim>\<open>Failed to create booking\<close>; its \<^verbatim>\<open>ROLLBACK\<close> comes after the
  commit, and the store holds the new booking.
\<close>

theorem error_response_after_commit_keeps_row:
  "createBooking (quiet\<lparr>emit_throws := True\<rparr>) (shop 2 []) ''u2''
       (ask (clock 10 0) (clock 11 0) JUndefined) =
     (Failure 500 ''Failed to create booking'',
      shop 2 [(held 1 1 (clock 10 0) (clock 11 0) ''pending'')\<lparr>user_id := ''u2''\<rparr>]) \<and>
   shop 2 [(held 1 1 (clock 10 0) (clock 11 0) ''pending'')\<lparr>user_id := ''u2''\<rparr>] \<noteq> shop 2 []"
  by code_simp

text \<open>
  Every other error keeps its promise.  When the conflict count has reached
  \<^verbatim>\<open>total_slots\<close> of the active station, the request fails with 409 and the store is
  unchanged.  Whenever the handler answers with an error, the store is unchanged unless
  the status is 500 and the emit after \<^verbatim>\<open>COMMIT\<close> threw; in that one case the store
  is the old one with the new booking inserted.
\<close>

lemma error_leaves_store_unless_emit_threw:
  "(req_station_id rq = Some st \<and> st \<noteq> 0 \<and>
    req_start_time rq = Some s \<and> req_end_time rq = Some e \<and>
    \<not> db_throws ev Begin \<and> \<not> db_throws ev SelectStation \<and> \<not> db_throws ev CountConflicts \<and>
    activeStation db st = x # xs \<and> total_slots x \<le> conflictCount (bookings db) st s e \<longrightarrow>
      createBooking ev db uid rq = (Failure 409 ''No available slots for selected time'', db)) \<and>
   (createBooking ev db uid rq = (Failure c m, db') \<longrightarrow>
      (c \<noteq> 500 \<or> \<not> emit_throws ev \<longrightarrow> db' = db) \<and>
      (db' \<noteq> db \<longrightarrow> c = 500 \<and> emit_throws ev \<and> (\<exists>b. db' = insertBooking db b)))"
proof (intro conjI impI)
  assume "req_station_id rq = Some st \<and> st \<noteq> 0 \<and>
    req_start_time rq = Some s \<and> req_end_time rq = Some e \<and>
    \<not> db_throws ev Begin \<and> \<not> db_throws ev SelectStation \<and> \<not> db_throws ev CountConflicts \<and>
    activeStation db st = x # xs \<and> total_slots x \<le> conflictCount (bookings db) st s e"
  then show "createBooking ev db uid rq = (Failure 409 ''No available slots for selected time'', db)"
    using createBooking_full [of rq st s e ev db x xs uid] by blast
next
  assume run: "createBooking ev db uid rq = (Failure c m, db')"
  note r = createBooking_result [OF run]
  { assume "c \<noteq> 500 \<or> \<not> emit_throws ev"
    with r show "db' = db" by (auto split: if_splits) }
  { assume "db' \<noteq> db"
    with r show "c = 500" and "emit_throws ev" and "\<exists>b. db' = insertBooking db b"
      by (auto split: if_splits) }
qed

lemma error_leaves_store_unless_emit_threw_example:
  "createBooking quiet (shop 1 [held 1 1 (clock 10 0) (clock 11 0) ''pending'']) ''u2''
       (ask (clock 10 30) (clock 11 30) JUndefined) =
     (Failure 409 ''No available slots for selected time'',
      shop 1 [held 1 1 (clock 10 0) (clock 11 0) ''pending'']) \<and>
   createBooking (quiet\<lparr>emit_throws := True\<rparr>) (shop 2 []) ''u2''
       (ask (clock 10 0) (clock 11 0) JUndefined) =
     (Failure 500 ''Failed to create booking'',
      shop 2 [(held 1 1 (clock 10 0) (clock 11 0) ''pending'')\<lparr>user_id := ''u2''\<rparr>]) \<and>
   emit_throws (quiet\<lparr>emit_throws := True\<rparr>) \<and>
   (\<exists>b. shop 2 [(held 1 1 (clock 10 0) (clock 11 0) ''pending'')\<lparr>user_id := ''u2''\<rparr>] =
          insertBooking (shop 2 []) b)"
proof -
  let ?db = "shop 1 [held 1 1 (clock 10 0) (clock 11 0) ''pending'']"
  let ?rq = "ask (clock 10 30) (clock 11 30) JUndefined"
  let ?loud = "quiet\<lparr>emit_throws := True\<rparr>"
  let ?db2 = "shop 2 [(held 1 1 (clock 10 0) (clock 11 0) ''pending'')\<lparr>user_id := ''u2''\<rparr>]"
  have pre: "req_station_id ?rq = Some 1 \<and> (1::int) \<noteq> 0 \<and>
    req_start_time ?rq = Some (clock 10 30) \<and> req_end_time ?rq = Some (clock 11 30) \<and>
    \<not> db_throws quiet Begin \<and> \<not> db_throws quiet SelectStation \<and>
    \<not> db_throws quiet CountConflicts \<and>
    activeStation ?db 1 = depot 1 # [] \<and>
    total_slots (depot 1) \<le> conflictCount (bookings ?db) 1 (clock 10 30) (clock 11 30)"
    by code_simp
  have run: "createBooking ?loud (shop 2 []) ''u2'' (ask (clock 10 0) (clock 11 0) JUndefined) =
     (Failure 500 ''Failed to create booking'', ?db2)"
    by code_simp
  have diff: "?db2 \<noteq> shop 2 []"
    by code_simp
  from error_leaves_store_unless_emit_threw
    [of ?rq 1 "clock 10 30" "clock 11 30" quiet ?db "depot 1" "[]" "''u2''"] pre
  have full: "createBooking quiet ?db ''u2'' ?rq =
      (Failure 409 ''No available slots for selected time'', ?db)"
    by blast
  from error_leaves_store_unless_emit_threw
    [of "ask (clock 10 0) (clock 11 0) JUndefined" _ _ _ ?loud "shop 2 []" _ _ "''u2''" 500
        "''Failed to create booking''" ?db2] run diff
  have "emit_throws ?loud" and "\<exists>b. ?db2 = insertBooking (shop 2 []) b"
    by blast+
  with full run show ?thesis by blast
qed

section \<open>A failing notification\<close>

lemma assignSlot_emit:
  "assignSlot (ev\<lparr>emit_throws := t\<rparr>) bs st s e tot v = assignSlot ev bs st s e tot v"
  by (simp add: assignSlot_def)

lemma slotColumn_emit: "slotColumn (ev\<lparr>emit_throws := t\<rparr>) a = slotColumn ev a"
  by (cases a) simp_all

lemma newBooking_emit:
  "newBooking (ev\<lparr>emit_throws := t\<rparr>) db uid st slot s e c = newBooking ev db uid st slot s e c"
  by (simp add: newBooking_def)

lemma insertBooking_changes: "insertBooking db b \<noteq> db"
proof
  assume "insertBooking db b = db"
  then have "next_bid (insertBooking db b) = next_bid db" by simp
  then show False by (simp add: insertBooking_def)
qed

text \<open>
  Claim C9, at the input where the code departs from it.  The request that is answered
  201 when the emit works is answered 500 \<^verbatim>\<open>Failed to create booking\<close> when the emit
  throws: the emit stands inside the \<^verbatim>\<open>try\<close> block, before the response is sent.
\<close>

theorem emit_failure_answers_500:
  "fst (createBooking quiet (shop 2 []) ''u2'' (ask (clock 10 0) (clock 11 0) JUndefined)) =
     Success 201 ((held 1 1 (clock 10 0) (clock 11 0) ''pending'')\<lparr>user_id := ''u2''\<rparr>) \<and>
   fst (createBooking (quiet\<lparr>emit_throws := True\<rparr>) (shop 2 []) ''u2''
          (ask (clock 10 0) (clock 11 0) JUndefined)) =
     Failure 500 ''Failed to create booking''"
  by code_simp

text \<open>
  In general: a failure of the emit after \<^verbatim>\<open>COMMIT\<close> never affects durability, the
  store is the one that the same request leaves when the emit works, with the created
  booking in it; the response is 500 instead of 201.
\<close>

lemma emit_failure_keeps_row_but_answers_500:
  assumes "createBooking (ev\<lparr>emit_throws := False\<rparr>) db uid rq = (Success c b, db')"
  shows "createBooking (ev\<lparr>emit_throws := True\<rparr>) db uid rq =
           (Failure 500 ''Failed to create booking'', db') \<and>
         db' = insertBooking db b \<and> b \<in> set (bookings db')"
proof -
  let ?off = "ev\<lparr>emit_throws := False\<rparr>" and ?on = "ev\<lparr>emit_throws := True\<rparr>"
  from createBooking_result [OF assms] obtain st s e x xs a slot where
    f: "req_station_id rq = Some st" "st \<noteq> 0" "req_start_time rq = Some s"
      "req_end_time rq = Some e"
    and q: "\<not> db_throws ?off Begin" "\<not> db_throws ?off SelectStation"
      "\<not> db_throws ?off CountConflicts" "\<not> db_throws ?off InsertBooking"
      "\<not> db_throws ?off Commit"
    and g: "activeStation db st = x # xs"
      "conflictCount (bookings db) st s e < total_slots x"
      "assignSlot ?off (bookings db) st s e (total_slots x) (req_slot_number rq) = Some a"
      "slotColumn ?off a = Some slot"
    and d: "db' = insertBooking db (newBooking ?off db uid st slot s e
              (totalCost s e (pricing_per_hour x)))"
    and r: "Success c b = Success 201 (newBooking ?off db uid st slot s e
              (totalCost s e (pricing_per_hour x)))"
    by auto
  from r d have b: "db' = insertBooking db b" by simp
  then have mem: "b \<in> set (bookings db')" by (simp add: insertBooking_def)
  from q have q': "\<not> db_throws ?on Begin" "\<not> db_throws ?on SelectStation"
      "\<not> db_throws ?on CountConflicts" "\<not> db_throws ?on InsertBooking"
      "\<not> db_throws ?on Commit"
    by simp_all
  from g have g': "assignSlot ?on (bookings db) st s e (total_slots x) (req_slot_number rq) = Some a"
      "slotColumn ?on a = Some slot"
    by (simp_all add: assignSlot_emit slotColumn_emit)
  have same: "newBooking ?on db uid st slot s e (totalCost s e (pricing_per_hour x)) = b"
    using r by (simp add: newBooking_emit)
  from createBooking_admits [OF f q' g(1,2) g', of uid]
  have "createBooking ?on db uid rq = (Failure 500 ''Failed to create booking'', insertBooking db b)"
    unfolding same by simp
  with b mem show ?thesis by simp
qed

lemma emit_failure_keeps_row_but_answers_500_example:
  "createBooking (quiet\<lparr>emit_throws := False\<rparr>) (shop 2 []) ''u2''
       (ask (clock 10 0) (clock 11 0) JUndefined) =
     (Success 201 ((held 1 1 (clock 10 0) (clock 11 0) ''pending'')\<lparr>user_id := ''u2''\<rparr>),
      shop 2 [(held 1 1 (clock 10 0) (clock 11 0) ''pending'')\<lparr>user_id := ''u2''\<rparr>]) \<and>
   createBooking (quiet\<lparr>emit_throws := True\<rparr>) (shop 2 []) ''u2''
       (ask (clock 10 0) (clock 11 0) JUndefined) =
     (Failure 500 ''Failed to create booking'',
      shop 2 [(held 1 1 (clock 10 0) (clock 11 0) ''pending'')\<lparr>user_id := ''u2''\<rparr>])"
proof -
  have run: "createBooking (quiet\<lparr>emit_throws := False\<rparr>) (shop 2 []) ''u2''
       (ask (clock 10 0) (clock 11 0) JUndefined) =
     (Success 201 ((held 1 1 (clock 10 0) (clock 11 0) ''pending'')\<lparr>user_id := ''u2''\<rparr>),
      shop 2 [(held 1 1 (clock 10 0) (clock 11 0) ''pending'')\<lparr>user_id := ''u2''\<rparr>])"
    by code_simp
  from emit_failure_keeps_row_but_answers_500 [OF run] run show ?thesis
    by blast
qed

section \<open>The lifecycle of a booking\<close>

lemma returning_first:
  assumes "b \<in> set bs" "hit b"
  shows "\<exists>b0 rest. returning hit f bs = f b0 # rest \<and> b0 \<in> set bs \<and> hit b0"
proof -
  from assms have "filter hit bs \<noteq> []" by (auto simp: filter_empty_conv)
  then obtain b0 rest where fr: "filter hit bs = b0 # rest" by (cases "filter hit bs") auto
  then have "b0 \<in> set (filter hit bs)" by simp
  then have "b0 \<in> set bs \<and> hit b0" by simp
  with fr show ?thesis by (auto simp: returning_def)
qed

lemma updateStatus_ok:
  assumes "validStatus st" "\<not> db_throws ev UpdateBooking" "\<not> db_throws ev InsertPowerLog"
    "\<not> emit_throws ev"
    and "returning (\<lambda>b. bid b = i \<and> user_id b = uid) (setStatus ev st) (bookings db) = b' # rest"
  shows "updateStatus ev db uid i st =
     (Success 200 b',
      if st = ''active''
      then db\<lparr>bookings := updateWhere (\<lambda>b. bid b = i \<and> user_id b = uid) (setStatus ev st) (bookings db),
              power_logs := power_logs db @ [seedLog b']\<rparr>
      else db\<lparr>bookings := updateWhere (\<lambda>b. bid b = i \<and> user_id b = uid) (setStatus ev st) (bookings db)\<rparr>)"
  unfolding updateStatus_def Let_def
  by (simp only: assms if_False if_True simp_thms list.case) simp

lemma adminUpdateStatus_ok:
  assumes "validStatus st" "requireAdmin ev db adm = None" "\<not> db_throws ev UpdateBooking"
    "\<not> emit_throws ev"
    and "returning (\<lambda>b. bid b = i) (setStatus ev st) (bookings db) = b' # rest"
  shows "adminUpdateStatus ev db adm i st =
     (Success 200 b', db\<lparr>bookings := updateWhere (\<lambda>b. bid b = i) (setStatus ev st) (bookings db)\<rparr>)"
  unfolding adminUpdateStatus_def Let_def
  by (simp only: assms if_False if_True simp_thms list.case option.case)

lemma updateWhere_sets_status:
  assumes "c \<in> set (updateWhere hit (setStatus ev st) bs)" "hit c"
    and "\<And>b. hit (setStatus ev st b) = hit b"
  shows "status c = st"
proof -
  from assms(1) obtain b where b: "b \<in> set bs" "c = (if hit b then setStatus ev st b else b)"
    by (auto simp: updateWhere_def)
  show ?thesis
  proof (cases "hit b")
    case True
    with b show ?thesis by (simp add: setStatus_def)
  next
    case False
    with b assms(2) show ?thesis by simp
  qed
qed

text \<open>
  Claim C6 fails on the code: a completed booking is set to active by its owner, and a
  cancelled booking is set to active by an administrator.
\<close>

theorem completed_to_active_counterexample:
  "fst (updateStatus quiet (shop 1 [held 1 1 (clock 10 0) (clock 11 0) ''completed'']) ''u1'' 1
          ''active'') =
     Success 200 (held 1 1 (clock 10 0) (clock 11 0) ''active'') \<and>
   fst (adminUpdateStatus quiet (shop 1 [held 1 1 (clock 10 0) (clock 11 0) ''cancelled''])
          ''root'' 1 ''active'') =
     Success 200 (held 1 1 (clock 10 0) (clock 11 0) ''active'')"
  by code_simp

text \<open>
  Claim C6 as amended.  Neither handler looks at the current status.  A request for
  \<^verbatim>\<open>active\<close>, \<^verbatim>\<open>completed\<close> or \<^verbatim>\<open>cancelled\<close> on an existing booking (of the caller,
  for the user route; any booking, for an administrator) is answered 200 and sets the
  status of the booking to the requested one, whatever it was before; there is no
  refusal of a transition.  Any other requested status, \<^verbatim>\<open>pending\<close> included, is
  answered 400 and leaves the store unchanged.
\<close>

theorem status_update_ignores_current_status:
  assumes "\<not> db_throws ev UpdateBooking" "\<not> db_throws ev InsertPowerLog" "\<not> emit_throws ev"
    and "b \<in> set (bookings db)" "bid b = i"
  shows "(validStatus st \<and> user_id b = uid \<longrightarrow>
            (\<exists>b' db'. updateStatus ev db uid i st = (Success 200 b', db') \<and> status b' = st \<and>
               (\<forall>c \<in> set (bookings db'). bid c = i \<and> user_id c = uid \<longrightarrow> status c = st))) \<and>
         (validStatus st \<and> requireAdmin ev db adm = None \<longrightarrow>
            (\<exists>b' db'. adminUpdateStatus ev db adm i st = (Success 200 b', db') \<and> status b' = st \<and>
               (\<forall>c \<in> set (bookings db'). bid c = i \<longrightarrow> status c = st))) \<and>
         (\<not> validStatus st \<longrightarrow>
            updateStatus ev db uid i st = (Failure 400 ''Invalid status'', db) \<and>
            (requireAdmin ev db adm = None \<longrightarrow>
               adminUpdateStatus ev db adm i st = (Failure 400 ''Invalid status'', db)))"
proof (intro conjI impI)
  assume a: "validStatus st \<and> user_id b = uid"
  let ?hit = "\<lambda>b. bid b = i \<and> user_id b = uid"
  from a assms(4,5) have "?hit b" by simp
  from returning_first [of b "bookings db" ?hit "setStatus ev st", OF assms(4) this]
  obtain b0 rest where r: "returning ?hit (setStatus ev st) (bookings db) = setStatus ev st b0 # rest"
    by blast
  from a have v: "validStatus st" ..
  note run = updateStatus_ok [OF v assms(1-3) r]
  have keep: "?hit (setStatus ev st x) = ?hit x" for x
    by (simp add: setStatus_def)
  have all: "status c = st"
    if "c \<in> set (updateWhere ?hit (setStatus ev st) (bookings db))" "bid c = i \<and> user_id c = uid" for c
    using updateWhere_sets_status [of c ?hit ev st "bookings db"] that keep by blast
  have st: "status (setStatus ev st b0) = st" by (simp add: setStatus_def)
  show "\<exists>b' db'. updateStatus ev db uid i st = (Success 200 b', db') \<and> status b' = st \<and>
               (\<forall>c \<in> set (bookings db'). bid c = i \<and> user_id c = uid \<longrightarrow> status c = st)"
  proof (cases "st = ''active''")
    case True
    let ?db' = "db\<lparr>bookings := updateWhere ?hit (setStatus ev st) (bookings db),
                  power_logs := power_logs db @ [seedLog (setStatus ev st b0)]\<rparr>"
    from run True have "updateStatus ev db uid i st = (Success 200 (setStatus ev st b0), ?db')"
      by (simp only: if_True simp_thms)
    moreover have "\<forall>c \<in> set (bookings ?db'). bid c = i \<and> user_id c = uid \<longrightarrow> status c = st"
      using all by simp
    ultimately show ?thesis using st by blast
  next
    case False
    let ?db' = "db\<lparr>bookings := updateWhere ?hit (setStatus ev st) (bookings db)\<rparr>"
    from run False have "updateStatus ev db uid i st = (Success 200 (setStatus ev st b0), ?db')"
      by (simp only: if_False simp_thms)
    moreover have "\<forall>c \<in> set (bookings ?db'). bid c = i \<and> user_id c = uid \<longrightarrow> status c = st"
      using all by simp
    ultimately show ?thesis using st by blast
  qed
next
  assume a: "validStatus st \<and> requireAdmin ev db adm = None"
  let ?hit = "\<lambda>b. bid b = i"
  from assms(4,5) have "?hit b" by simp
  from returning_first [of b "bookings db" ?hit "setStatus ev st", OF assms(4) this]
  obtain b0 rest where r: "returning ?hit (setStatus ev st) (bookings db) = setStatus ev st b0 # rest"
    by blast
  let ?db' = "db\<lparr>bookings := updateWhere ?hit (setStatus ev st) (bookings db)\<rparr>"
  from a have v: "validStatus st" and ad: "requireAdmin ev db adm = None" by simp_all
  note run = adminUpdateStatus_ok [OF v ad assms(1,3) r]
  have keep: "?hit (setStatus ev st x) = ?hit x" for x
    by (simp add: setStatus_def)
  have all: "status c = st"
    if "c \<in> set (updateWhere ?hit (setStatus ev st) (bookings db))" "bid c = i" for c
    using updateWhere_sets_status [of c ?hit ev st "bookings db"] that keep by blast
  then have "\<forall>c \<in> set (bookings ?db'). bid c = i \<longrightarrow> status c = st"
    by simp
  moreover have "status (setStatus ev st b0) = st" by (simp add: setStatus_def)
  ultimately
  show "\<exists>b' db'. adminUpdateStatus ev db adm i st = (Success 200 b', db') \<and> status b' = st \<and>
               (\<forall>c \<in> set (bookings db'). bid c = i \<longrightarrow> status c = st)"
    using run by blast
next
  assume "\<not> validStatus st"
  then show "updateStatus ev db uid i st = (Failure 400 ''Invalid status'', db)"
    by (simp add: updateStatus_def)
next
  assume "\<not> validStatus st" "requireAdmin ev db adm = None"
  then show "adminUpdateStatus ev db adm i st = (Failure 400 ''Invalid status'', db)"
    by (simp add: adminUpdateStatus_def)
qed

theorem status_update_ignores_current_status_witness:
  "validStatus ''active'' \<and>
   requireAdmin quiet (shop 1 [held 1 1 (clock 10 0) (clock 11 0) ''completed'']) ''root'' = None \<and>
   (\<exists>b' db'. updateStatus quiet (shop 1 [held 1 1 (clock 10 0) (clock 11 0) ''completed''])
                ''u1'' 1 ''active'' = (Success 200 b', db') \<and> status b' = ''active'') \<and>
   (\<exists>b' db'. adminUpdateStatus quiet (shop 1 [held 1 1 (clock 10 0) (clock 11 0) ''completed''])
                ''root'' 1 ''active'' = (Success 200 b', db') \<and> status b' = ''active'') \<and>
   \<not> validStatus ''pending'' \<and>
   updateStatus quiet (shop 1 [held 1 1 (clock 10 0) (clock 11 0) ''completed'']) ''u1'' 1
      ''pending'' =
     (Failure 400 ''Invalid status'', shop 1 [held 1 1 (clock 10 0) (clock 11 0) ''completed''])"
proof -
  let ?b = "held 1 1 (clock 10 0) (clock 11 0) ''completed''"
  let ?db = "shop 1 [?b]"
  have ev: "\<not> db_throws quiet UpdateBooking" "\<not> db_throws quiet InsertPowerLog"
    "\<not> emit_throws quiet"
    by (simp_all add: quiet_def)
  have row: "?b \<in> set (bookings ?db)" "bid ?b = 1"
    by (simp_all add: shop_def held_def)
  have own: "user_id ?b = ''u1''"
    by (simp add: held_def)
  have ok: "validStatus ''active''" and no: "\<not> validStatus ''pending''"
    by (simp_all add: validStatus_def)
  have adm: "requireAdmin quiet ?db ''root'' = None"
    by (simp add: requireAdmin_def quiet_def shop_def)
  note go = status_update_ignores_current_status [OF ev row, of "''active''" "''u1''" "''root''"]
  note stop = status_update_ignores_current_status [OF ev row, of "''pending''" "''u1''" "''root''"]
  from go ok own have user: "\<exists>b' db'. updateStatus quiet ?db ''u1'' 1 ''active'' = (Success 200 b', db') \<and>
      status b' = ''active''"
    by blast
  from go ok adm have admin: "\<exists>b' db'. adminUpdateStatus quiet ?db ''root'' 1 ''active'' =
      (Success 200 b', db') \<and> status b' = ''active''"
    by blast
  from stop no have bad: "updateStatus quiet ?db ''u1'' 1 ''pending'' = (Failure 400 ''Invalid status'', ?db)"
    by blast
  from ok adm user admin no bad show ?thesis
    by (intro conjI)
qed

section \<open>The power log\<close>

text \<open>
  Claim C8, at the input where the code departs from it.  Booking 1 is pending.  When
  its owner sets it to \<^verbatim>\<open>active\<close>, the user route appends one entry with reading 0
  for the booking.  When an administrator does the same through the override route,
  the booking becomes active and the power log stays empty.
\<close>

theorem admin_activation_writes_no_power_log:
  "updateStatus quiet (shop 1 [held 1 1 (clock 10 0) (clock 11 0) ''pending'']) ''u1'' 1 ''active'' =
     (Success 200 (held 1 1 (clock 10 0) (clock 11 0) ''active''),
      (shop 1 [held 1 1 (clock 10 0) (clock 11 0) ''active''])
        \<lparr>power_logs := [\<lparr>pl_station_id = 1, pl_booking_id = 1, power_kw = 0\<rparr>]\<rparr>) \<and>
   adminUpdateStatus quiet (shop 1 [held 1 1 (clock 10 0) (clock 11 0) ''pending'']) ''root'' 1
       ''active'' =
     (Success 200 (held 1 1 (clock 10 0) (clock 11 0) ''active''),
      shop 1 [held 1 1 (clock 10 0) (clock 11 0) ''active'']) \<and>
   power_logs (shop 1 [held 1 1 (clock 10 0) (clock 11 0) ''active'']) = []"
  by code_simp

section \<open>One booking per slot\<close>

lemma slotsApart_snoc:
  "slotsApart (bs @ [n]) \<longleftrightarrow>
     slotsApart bs \<and> (\<forall>a \<in> set bs. sameSlot a n \<and> overlap a n \<longrightarrow> encloses n a)"
  by (induction bs) auto

lemma found_slot_apart:
  assumes k: "findSlot (usedSlots bs st s e) tot 1 = Some k"
    and a: "a \<in> set bs"
    and same: "sameSlot a (newBooking ev db uid st k s e cost)"
    and over: "overlap a (newBooking ev db uid st k s e cost)"
  shows "encloses (newBooking ev db uid st k s e cost) a"
proof -
  from findSlot_Some [OF k] have free: "k \<notin> set (usedSlots bs st s e)" by simp
  from same have row: "station_id a = st" "slot_number a = k" "live a"
    by (simp_all add: sameSlot_def newBooking_def)
  have "\<not> usedRow st s e a"
  proof
    assume "usedRow st s e a"
    with a have "slot_number a \<in> set (usedSlots bs st s e)"
      by (simp add: usedSlots_def)
    with row(2) free show False by simp
  qed
  with row have out: "\<not> between s (start_time a) (end_time a)"
    "\<not> between e (start_time a) (end_time a)"
    by (simp_all add: usedRow_def)
  from over have "start_time a < e" "s < end_time a"
    by (simp_all add: overlap_def newBooking_def)
  with out have "s < start_time a \<and> end_time a < e"
    by (auto simp: between_def)
  then show ?thesis by (simp add: encloses_def newBooking_def)
qed

lemma createBooking_keeps_apart:
  assumes "\<not> truthy (req_slot_number rq)" and "slotsApart (bookings db)"
  shows "slotsApart (bookings (snd (createBooking ev db uid rq)))"
proof -
  obtain r db' where run: "createBooking ev db uid rq = (r, db')"
    by (cases "createBooking ev db uid rq")
  from createBooking_result [OF run] show ?thesis
  proof
    assume "db' = db \<and> (\<exists>c m. r = Failure c m)"
    with run assms(2) show ?thesis by simp
  next
    assume "\<exists>st s e x xs a slot.
            req_station_id rq = Some st \<and> st \<noteq> 0 \<and>
            req_start_time rq = Some s \<and> req_end_time rq = Some e \<and>
            \<not> db_throws ev Begin \<and> \<not> db_throws ev SelectStation \<and>
            \<not> db_throws ev CountConflicts \<and> \<not> db_throws ev InsertBooking \<and>
            \<not> db_throws ev Commit \<and>
            activeStation db st = x # xs \<and>
            conflictCount (bookings db) st s e < total_slots x \<and>
            assignSlot ev (bookings db) st s e (total_slots x) (req_slot_number rq) = Some a \<and>
            slotColumn ev a = Some slot \<and>
            db' = insertBooking db (newBooking ev db uid st slot s e (totalCost s e (pricing_per_hour x))) \<and>
            r = (if emit_throws ev then Failure 500 ''Failed to create booking''
                 else Success 201 (newBooking ev db uid st slot s e (totalCost s e (pricing_per_hour x))))"
    then obtain st s e and x :: station and a slot where
      room: "conflictCount (bookings db) st s e < total_slots x"
      and asg: "assignSlot ev (bookings db) st s e (total_slots x) (req_slot_number rq) = Some a"
      and col: "slotColumn ev a = Some slot"
      and d: "db' = insertBooking db (newBooking ev db uid st slot s e (totalCost s e (pricing_per_hour x)))"
      by blast
    from assignSlot_cases [OF asg room] assms(1) obtain k where
      k: "findSlot (usedSlots (bookings db) st s e) (total_slots x) 1 = Some k" "a = JNum k"
      by auto
    with col have "slot = k" by simp
    with d have bk: "bookings db' =
        bookings db @ [newBooking ev db uid st k s e (totalCost s e (pricing_per_hour x))]"
      by (simp add: insertBooking_def)
    have "slotsApart (bookings db')"
      unfolding bk slotsApart_snoc
      using assms(2) found_slot_apart [OF k(1)] by blast
    with run show ?thesis by simp
  qed
qed

text \<open>
  Claim C1 fails on the code.  On an empty two-slot station the first request, without
  a slot number, is given slot 1 for 10:00 to 11:00; the second asks for slot 1 from
  10:30 to 11:30 and is created on slot 1 as well.
\<close>

theorem requested_slot_double_booking_counterexample:
  "bookings (createAll (shop 2 [])
      [(quiet, ''u1'', ask (clock 10 0) (clock 11 0) JUndefined),
       (quiet, ''u2'', ask (clock 10 30) (clock 11 30) (JNum 1))]) =
     [held 1 1 (clock 10 0) (clock 11 0) ''pending'',
      (held 2 1 (clock 10 30) (clock 11 30) ''pending'')\<lparr>user_id := ''u2''\<rparr>] \<and>
   doubleBooked
     [held 1 1 (clock 10 0) (clock 11 0) ''pending'',
      (held 2 1 (clock 10 30) (clock 11 30) ''pending'')\<lparr>user_id := ''u2''\<rparr>]"
  by code_simp

text \<open>
  Claim C1 as amended.  A slot number supplied in the request is stored unchecked, so
  the guarantee is for requests that supply none (or a falsy one).  After any sequence
  of such requests, on a store that had the property before, two pending or active
  bookings on the same slot of the same station overlap only if the later-created one
  starts before and ends after the earlier one: a slot that is assigned automatically is
  never the slot of a pending or active booking whose window contains the start or the
  end of the new one.
\<close>

theorem auto_assigned_slots_stay_apart:
  assumes "slotsApart (bookings db)"
    and "\<forall>op \<in> set ops. \<not> truthy (req_slot_number (snd (snd op)))"
  shows "slotsApart (bookings (createAll db ops))"
  using assms
proof (induction ops arbitrary: db)
  case Nil
  then show ?case by simp
next
  case (Cons op ops)
  obtain ev uid rq where op: "op = (ev, uid, rq)" by (cases op)
  with Cons.prems have "\<not> truthy (req_slot_number rq)" by simp
  from createBooking_keeps_apart [OF this Cons.prems(1)]
  have "slotsApart (bookings (snd (createBooking ev db uid rq)))" .
  moreover from Cons.prems have "\<forall>op \<in> set ops. \<not> truthy (req_slot_number (snd (snd op)))"
    by simp
  ultimately have "slotsApart (bookings (createAll (snd (createBooking ev db uid rq)) ops))"
    by (rule Cons.IH)
  with op show ?case by simp
qed

theorem auto_assigned_slots_stay_apart_witness:
  "slotsApart (bookings (shop 2 [])) \<and>
   \<not> truthy (req_slot_number (ask (clock 10 0) (clock 11 0) JUndefined)) \<and>
   \<not> truthy (req_slot_number (ask (clock 10 30) (clock 11 30) JNull)) \<and>
   bookings (createAll (shop 2 [])
      [(quiet, ''u1'', ask (clock 10 0) (clock 11 0) JUndefined),
       (quiet, ''u2'', ask (clock 10 30) (clock 11 30) JNull)]) =
     [held 1 1 (clock 10 0) (clock 11 0) ''pending'',
      (held 2 2 (clock 10 30) (clock 11 30) ''pending'')\<lparr>user_id := ''u2''\<rparr>] \<and>
   slotsApart
     [held 1 1 (clock 10 0) (clock 11 0) ''pending'',
      (held 2 2 (clock 10 30) (clock 11 30) ''pending'')\<lparr>user_id := ''u2''\<rparr>]"
proof -
  let ?ops = "[(quiet, ''u1'', ask (clock 10 0) (clock 11 0) JUndefined),
               (quiet, ''u2'', ask (clock 10 30) (clock 11 30) JNull)]"
  have start: "slotsApart (bookings (shop 2 []))"
    by (simp add: shop_def)
  have falsy: "\<forall>op \<in> set ?ops. \<not> truthy (req_slot_number (snd (snd op)))"
    by (simp add: ask_def)
  have run: "bookings (createAll (shop 2 []) ?ops) =
     [held 1 1 (clock 10 0) (clock 11 0) ''pending'',
      (held 2 2 (clock 10 30) (clock 11 30) ''pending'')\<lparr>user_id := ''u2''\<rparr>]"
    by code_simp
  from auto_assigned_slots_stay_apart [OF start falsy]
  have "slotsApart
     [held 1 1 (clock 10 0) (clock 11 0) ''pending'',
      (held 2 2 (clock 10 30) (clock 11 30) ''pending'')\<lparr>user_id := ''u2''\<rparr>]"
    by (simp only: run)
  moreover have "\<not> truthy (req_slot_number (ask (clock 10 0) (clock 11 0) JUndefined))"
    "\<not> truthy (req_slot_number (ask (clock 10 30) (clock 11 30) JNull))"
    by (simp_all add: ask_def)
  ultimately show ?thesis using start run by (intro conjI)
qed

end
